theory Spec2Isabelle
  imports Complex_Main "HOL-Library.Word" "HOL-Library.AList" "HOL-Library.Monad_Syntax"
begin

section \<open>JavaScript numbers\<close>

text \<open>
  A JavaScript number is an IEEE double. Finite doubles are idealised as reals (rounding
  error and overflow of finite arithmetic are not modelled), except in the eye aspect
  ratio, whose operations are rounded to doubles (see below); the three non-finite values
  that a division by zero produces are kept, because the program divides by quantities
  that can be zero and then compares the quotient. Every zero divisor of this program is
  an array length, an image dimension or a result of \<open>Math.abs\<close>, hence \<open>+0\<close>; the model
  has no negative zero.
\<close>

datatype jsnum = Fin real | PosInf | NegInf | NaN

fun js_neg :: "jsnum \<Rightarrow> jsnum" where
  "js_neg (Fin a) = Fin (- a)"
| "js_neg PosInf = NegInf"
| "js_neg NegInf = PosInf"
| "js_neg NaN = NaN"

fun js_add :: "jsnum \<Rightarrow> jsnum \<Rightarrow> jsnum" where
  "js_add NaN _ = NaN"
| "js_add _ NaN = NaN"
| "js_add (Fin a) (Fin b) = Fin (a + b)"
| "js_add PosInf NegInf = NaN"
| "js_add NegInf PosInf = NaN"
| "js_add PosInf _ = PosInf"
| "js_add _ PosInf = PosInf"
| "js_add NegInf _ = NegInf"
| "js_add _ NegInf = NegInf"

definition js_sub :: "jsnum \<Rightarrow> jsnum \<Rightarrow> jsnum" where
  "js_sub a b = js_add a (js_neg b)"

fun js_sign :: "jsnum \<Rightarrow> real" where
  "js_sign (Fin a) = sgn a"
| "js_sign PosInf = 1"
| "js_sign NegInf = - 1"
| "js_sign NaN = 0"

fun js_mul :: "jsnum \<Rightarrow> jsnum \<Rightarrow> jsnum" where
  "js_mul NaN _ = NaN"
| "js_mul _ NaN = NaN"
| "js_mul (Fin a) (Fin b) = Fin (a * b)"
| "js_mul a b =
     (let s = js_sign a * js_sign b
      in if 0 < s then PosInf else if s < 0 then NegInf else NaN)"

fun js_div :: "jsnum \<Rightarrow> jsnum \<Rightarrow> jsnum" where
  "js_div NaN _ = NaN"
| "js_div _ NaN = NaN"
| "js_div (Fin a) (Fin b) =
     (if b \<noteq> 0 then Fin (a / b)
      else if 0 < a then PosInf else if a < 0 then NegInf else NaN)"
| "js_div (Fin a) _ = Fin 0"
| "js_div PosInf (Fin b) = (if 0 \<le> b then PosInf else NegInf)"
| "js_div NegInf (Fin b) = (if 0 \<le> b then NegInf else PosInf)"
| "js_div _ _ = NaN"

fun js_abs :: "jsnum \<Rightarrow> jsnum" where
  "js_abs (Fin a) = Fin \<bar>a\<bar>"
| "js_abs PosInf = PosInf"
| "js_abs NegInf = PosInf"
| "js_abs NaN = NaN"

text \<open>\<open>a < b\<close>; a comparison with \<open>NaN\<close> is false.\<close>

fun js_lt :: "jsnum \<Rightarrow> jsnum \<Rightarrow> bool" where
  "js_lt NaN _ = False"
| "js_lt _ NaN = False"
| "js_lt (Fin a) (Fin b) = (a < b)"
| "js_lt _ NegInf = False"
| "js_lt PosInf _ = False"
| "js_lt _ _ = True"

definition js_gt :: "jsnum \<Rightarrow> jsnum \<Rightarrow> bool" where
  "js_gt a b = js_lt b a"

text \<open>\<open>Math.min(a, b)\<close>.\<close>

fun js_min :: "jsnum \<Rightarrow> jsnum \<Rightarrow> jsnum" where
  "js_min NaN _ = NaN"
| "js_min _ NaN = NaN"
| "js_min a b = (if js_lt b a then b else a)"

text \<open>
  \<open>Math.atan2(y, x)\<close> on reals: the angle of the point \<open>(x, y)\<close> in \<open>(-\<pi>, \<pi>]\<close>, and \<open>0\<close>
  at the origin.
\<close>

definition atan2 :: "real \<Rightarrow> real \<Rightarrow> real" where
  "atan2 y x =
     (if 0 < x then arctan (y / x)
      else if x < 0 then (if 0 \<le> y then arctan (y / x) + pi else arctan (y / x) - pi)
      else if 0 < y then pi / 2
      else if y < 0 then - (pi / 2)
      else 0)"

fun js_atan2 :: "jsnum \<Rightarrow> jsnum \<Rightarrow> jsnum" where
  "js_atan2 NaN _ = NaN"
| "js_atan2 _ NaN = NaN"
| "js_atan2 (Fin y) (Fin x) = Fin (atan2 y x)"
| "js_atan2 (Fin y) PosInf = Fin 0"
| "js_atan2 (Fin y) NegInf = (if 0 \<le> y then Fin pi else Fin (- pi))"
| "js_atan2 PosInf (Fin x) = Fin (pi / 2)"
| "js_atan2 NegInf (Fin x) = Fin (- (pi / 2))"
| "js_atan2 PosInf PosInf = Fin (pi / 4)"
| "js_atan2 PosInf NegInf = Fin (3 * pi / 4)"
| "js_atan2 NegInf PosInf = Fin (- (pi / 4))"
| "js_atan2 NegInf NegInf = Fin (- (3 * pi / 4))"

text \<open>\<open>Math.round\<close>: the nearest integer, a tie going up.\<close>

definition Math_round :: "real \<Rightarrow> int" where
  "Math_round x = \<lfloor>x + 1 / 2\<rfloor>"

subsection \<open>Correctly rounded arithmetic\<close>

text \<open>
  Where a result depends on the rounding itself, an operation on doubles is modelled as
  IEEE 754 defines it: the exact real result, rounded to the nearest double, a tie
  going to the even significand. A double has 53 significant bits; below \<open>2^-1022\<close> the
  spacing is fixed at \<open>2^-1074\<close>; a magnitude that rounds to \<open>2^1024\<close> or more becomes an
  infinity. A zero result has no sign in the model.
\<close>

text \<open>The position of the leading binary digit of a positive integer.\<close>

function ilog2 :: "int \<Rightarrow> int" where
  "ilog2 n = (if n < 2 then 0 else ilog2 (n div 2) + 1)"
  by pat_completeness auto
termination
  by (relation "measure nat") auto

declare ilog2.simps [simp del]

text \<open>The binary exponent of a positive real \<open>x\<close>: the \<open>e\<close> with \<open>2^e \<le> x < 2^(e+1)\<close>.\<close>

definition expo :: "real \<Rightarrow> int" where
  "expo x =
     (if 1 \<le> x then ilog2 \<lfloor>x\<rfloor>
      else - ilog2 (\<lceil>1 / x\<rceil> - 1) - 1)"

text \<open>Rounding to the nearest integer, a tie going to the even one.\<close>

definition rne :: "real \<Rightarrow> int" where
  "rne x =
     (let f = \<lfloor>x\<rfloor>; d = x - real_of_int f
      in if d < 1 / 2 then f
         else if 1 / 2 < d then f + 1
         else if even f then f
         else f + 1)"

text \<open>
  The magnitude of the double nearest to a positive real \<open>a\<close>, before the test for
  overflow: 53 significant bits, and the fixed spacing \<open>2^-1074\<close> below \<open>2^-1022\<close>.
\<close>

definition round_mag :: "real \<Rightarrow> real" where
  "round_mag a =
     (let e = max (expo a - 52) (- 1074)
      in real_of_int (rne (a / 2 powi e)) * 2 powi e)"

text \<open>
  The double nearest to a real (round to nearest, ties to even); a magnitude that rounds
  to \<open>2^1024\<close> or more overflows to an infinity.
\<close>

definition fl :: "real \<Rightarrow> jsnum" where
  "fl x =
     (if x = 0 then Fin 0
      else if 2 powi 1024 \<le> round_mag \<bar>x\<bar> then (if 0 < x then PosInf else NegInf)
      else Fin (sgn x * round_mag \<bar>x\<bar>))"

definition js_round :: "jsnum \<Rightarrow> jsnum" where
  "js_round v = (case v of Fin x \<Rightarrow> fl x | _ \<Rightarrow> v)"

text \<open>Subtraction and division of doubles: the exact result, rounded.\<close>

definition js_sub64 :: "jsnum \<Rightarrow> jsnum \<Rightarrow> jsnum" where
  "js_sub64 a b = js_round (js_sub a b)"

definition js_div64 :: "jsnum \<Rightarrow> jsnum \<Rightarrow> jsnum" where
  "js_div64 a b = js_round (js_div a b)"

definition is_double :: "real \<Rightarrow> bool" where
  "is_double x = (fl x = Fin x)"

fun is_Fin :: "jsnum \<Rightarrow> bool" where
  "is_Fin (Fin _) = True"
| "is_Fin _ = False"

text \<open>
  A real whose rounding neither overflows nor falls below the smallest normal double.
\<close>

definition rounds_normally :: "real \<Rightarrow> bool" where
  "rounds_normally d = (2 powi (- 1022) \<le> \<bar>d\<bar> \<and> is_Fin (fl d))"

subsection \<open>Numbers as text\<close>

definition digit_char :: "nat \<Rightarrow> char" where
  "digit_char n = ''0123456789'' ! n"

fun string_of_nat :: "nat \<Rightarrow> string" where
  "string_of_nat n =
     (if n < 10 then [digit_char n]
      else string_of_nat (n div 10) @ [digit_char (n mod 10)])"

text \<open>
  \<open>x.toFixed(f)\<close>: the sign, then the integer \<open>n\<close> nearest to \<open>|x| * 10^f\<close> (the larger
  one on a tie) written with \<open>f\<close> decimals. The exponent notation that the platform uses
  from \<open>10^21\<close> on is not modelled.
\<close>

definition pad_zeros :: "nat \<Rightarrow> string \<Rightarrow> string" where
  "pad_zeros k s = replicate (k - length s) (CHR ''0'') @ s"

definition toFixed :: "jsnum \<Rightarrow> nat \<Rightarrow> string" where
  "toFixed v f =
     (case v of
        NaN \<Rightarrow> ''NaN''
      | PosInf \<Rightarrow> ''Infinity''
      | NegInf \<Rightarrow> ''-Infinity''
      | Fin x \<Rightarrow>
          (let n = nat \<lfloor>\<bar>x\<bar> * 10 ^ f + 1 / 2\<rfloor>;
               m = pad_zeros (f + 1) (string_of_nat n);
               k = length m - f
           in (if x < 0 then ''-'' else '''') @
              (if f = 0 then m else take k m @ ''.'' @ drop k m)))"

text \<open>The non-ASCII characters of the messages and captions, as their UTF-8 bytes.\<close>

definition check_mark :: string where
  "check_mark = [CHR 0xE2, CHR 0x9C, CHR 0x93]"

definition degree_sign :: string where
  "degree_sign = [CHR 0xC2, CHR 0xB0]"

definition times_sign :: string where
  "times_sign = [CHR 0xC3, CHR 0x97]"

section \<open>Layout engine\<close>

text \<open>
  The canvas is the browser's; a sheet is modelled by its pixel dimensions and the
  sequence of drawing calls made on it. Fill and stroke calls carry the style that is
  current when they are made.
\<close>

datatype canvas_op =
    FillRect string real real real real
  | DrawImage string real real real real
  | StrokeRect string real real real real real
  | FillText string string string real real

record sheet =
  sheet_width :: int
  sheet_height :: int
  sheet_ops :: "canvas_op list"

definition DPI :: real where
  "DPI = 300"

definition MM_TO_INCH :: real where
  "MM_TO_INCH = 0.0393701"

text \<open>
  The constants that each layout function computes before it draws.
\<close>

record grid =
  canvasWidth :: int
  canvasHeight :: int
  photoWidthPx :: int
  photoHeightPx :: int
  spacingPx :: int
  marginX :: real
  marginY :: real
  cols :: nat
  rows :: nat

definition gridA4 :: grid where
  "gridA4 =
     (let a4WidthMM = 210; a4HeightMM = 297;
          photoWidthMM = 30; photoHeightMM = 40;
          marginMM = 20; spacingMM = 15;
          marginPx = Math_round (marginMM * MM_TO_INCH * DPI)
      in \<lparr> canvasWidth = Math_round (a4WidthMM * MM_TO_INCH * DPI),
           canvasHeight = Math_round (a4HeightMM * MM_TO_INCH * DPI),
           photoWidthPx = Math_round (photoWidthMM * MM_TO_INCH * DPI),
           photoHeightPx = Math_round (photoHeightMM * MM_TO_INCH * DPI),
           spacingPx = Math_round (spacingMM * MM_TO_INCH * DPI),
           marginX = real_of_int marginPx,
           marginY = real_of_int marginPx,
           cols = 2, rows = 3 \<rparr>)"

definition grid10x15 :: grid where
  "grid10x15 =
     (let paperWidthMM = 100; paperHeightMM = 150;
          photoWidthMM = 30; photoHeightMM = 40;
          spacingMM = 5;
          cw = Math_round (paperWidthMM * MM_TO_INCH * DPI);
          ch = Math_round (paperHeightMM * MM_TO_INCH * DPI);
          pw = Math_round (photoWidthMM * MM_TO_INCH * DPI);
          ph = Math_round (photoHeightMM * MM_TO_INCH * DPI);
          cols' = 3; rows' = 3;
          sp = Math_round (spacingMM * MM_TO_INCH * DPI);
          totalGridWidth = cols' * pw + (cols' - 1) * sp;
          totalGridHeight = rows' * ph + (rows' - 1) * sp
      in \<lparr> canvasWidth = cw, canvasHeight = ch,
           photoWidthPx = pw, photoHeightPx = ph,
           spacingPx = sp,
           marginX = real_of_int (cw - totalGridWidth) / 2,
           marginY = real_of_int (ch - totalGridHeight) / 2,
           cols = nat cols', rows = nat rows' \<rparr>)"

text \<open>The position of the cell in row \<open>row\<close> and column \<open>col\<close>.\<close>

definition cell_x :: "grid \<Rightarrow> nat \<Rightarrow> real" where
  "cell_x g col = marginX g + real col * real_of_int (photoWidthPx g + spacingPx g)"

definition cell_y :: "grid \<Rightarrow> nat \<Rightarrow> real" where
  "cell_y g row = marginY g + real row * real_of_int (photoHeightPx g + spacingPx g)"

text \<open>The nested loop over rows and columns: a photo and its cut guide per cell.\<close>

definition drawGrid :: "grid \<Rightarrow> string \<Rightarrow> canvas_op list" where
  "drawGrid g photo =
     concat (map (\<lambda>row. concat (map (\<lambda>col.
       [DrawImage photo (cell_x g col) (cell_y g row)
          (real_of_int (photoWidthPx g)) (real_of_int (photoHeightPx g)),
        StrokeRect ''#CCCCCC'' 2 (cell_x g col) (cell_y g row)
          (real_of_int (photoWidthPx g)) (real_of_int (photoHeightPx g))])
       [0..<cols g])) [0..<rows g])"

definition generateA4Layout :: "string \<Rightarrow> sheet" where
  "generateA4Layout photoDataUrl =
     (let g = gridA4
      in \<lparr> sheet_width = canvasWidth g,
           sheet_height = canvasHeight g,
           sheet_ops =
             FillRect ''#FFFFFF'' 0 0 (real_of_int (canvasWidth g)) (real_of_int (canvasHeight g))
             # drawGrid g photoDataUrl
             @ [FillText ''#666666'' ''bold 14px Arial'' ''Cut along gray lines''
                  (marginX g) (real_of_int (canvasHeight g) - 30),
                FillText ''#666666'' ''12px Arial''
                  (''3'' @ times_sign @ ''4 cm passport photos - Print at 300 DPI'')
                  (marginX g) (real_of_int (canvasHeight g) - 10)] \<rparr>)"

definition generate10x15Layout :: "string \<Rightarrow> sheet" where
  "generate10x15Layout photoDataUrl =
     (let g = grid10x15
      in \<lparr> sheet_width = canvasWidth g,
           sheet_height = canvasHeight g,
           sheet_ops =
             FillRect ''#FFFFFF'' 0 0 (real_of_int (canvasWidth g)) (real_of_int (canvasHeight g))
             # drawGrid g photoDataUrl
             @ [FillText ''#666666'' ''11px Arial''
                  (''3'' @ times_sign @ ''4 cm photos - 300 DPI'')
                  (real_of_int (canvasWidth g) / 2) (real_of_int (canvasHeight g) - 10)] \<rparr>)"

text \<open>A drawn photo lies within a canvas of the given size.\<close>

fun op_within :: "int \<Rightarrow> int \<Rightarrow> canvas_op \<Rightarrow> bool" where
  "op_within w h (DrawImage _ x y dw dh) =
     (0 \<le> x \<and> 0 \<le> y \<and> x + dw \<le> real_of_int w \<and> y + dh \<le> real_of_int h)"
| "op_within w h _ = True"

fun is_DrawImage :: "canvas_op \<Rightarrow> bool" where
  "is_DrawImage (DrawImage _ _ _ _ _) = True"
| "is_DrawImage _ = False"

section \<open>Data of the detector\<close>

text \<open>
  The face detector is an external library. A detection is taken as it is handed to the
  program: a bounding box and the landmark groups that the accessors \<open>getLeftEye\<close>,
  \<open>getRightEye\<close>, \<open>getNose\<close> and \<open>getMouth\<close> return.
\<close>

record point =
  pt_x :: real
  pt_y :: real

record box =
  box_x :: real
  box_y :: real
  box_width :: real
  box_height :: real

record landmarks =
  getLeftEye :: "point list"
  getRightEye :: "point list"
  getNose :: "point list"
  getMouth :: "point list"

record detection =
  det_box :: box
  det_landmarks :: landmarks

record faceData =
  fd_x :: real
  fd_y :: real
  fd_width :: real
  fd_height :: real
  fd_landmarks :: landmarks

text \<open>A loaded image, as far as the program reads it: its dimensions.\<close>

record image =
  img_width :: nat
  img_height :: nat

section \<open>Processor\<close>

subsection \<open>Crop\<close>



subsection \<open>White background and resize\<close>

record resized =
  res_width :: int
  res_height :: int
  res_x :: jsnum
  res_y :: jsnum
  res_scaledWidth :: jsnum
  res_scaledHeight :: jsnum

definition applyWhiteBackgroundAndResize :: "image \<Rightarrow> resized" where
  "applyWhiteBackgroundAndResize img =
     (let DPI' = 300; CM_TO_INCH = 0.393701; WIDTH_CM = 3; HEIGHT_CM = 4;
          cw = Math_round (WIDTH_CM * CM_TO_INCH * DPI');
          ch = Math_round (HEIGHT_CM * CM_TO_INCH * DPI');
          scale = js_min (js_div (Fin (real_of_int cw)) (Fin (real (img_width img))))
                         (js_div (Fin (real_of_int ch)) (Fin (real (img_height img))));
          scaledWidth = js_mul (Fin (real (img_width img))) scale;
          scaledHeight = js_mul (Fin (real (img_height img))) scale
      in \<lparr> res_width = cw, res_height = ch,
           res_x = js_div (js_sub (Fin (real_of_int cw)) scaledWidth) (Fin 2),
           res_y = js_div (js_sub (Fin (real_of_int ch)) scaledHeight) (Fin 2),
           res_scaledWidth = scaledWidth,
           res_scaledHeight = scaledHeight \<rparr>)"

subsection \<open>Pixel buffers\<close>

text \<open>
  An \<open>ImageData\<close>: dimensions and a byte array of four channels per pixel, row by row.
  The array is a \<open>Uint8ClampedArray\<close>: a read out of range gives \<open>undefined\<close>, which is
  \<open>NaN\<close> in arithmetic; a write out of range is ignored; a written number is clamped to
  \<open>[0, 255]\<close> and rounded to the nearest integer, a tie going to the even one.
\<close>

record ImageData =
  id_width :: nat
  id_height :: nat
  id_data :: "8 word list"

datatype error = IndexSizeError

definition rd :: "8 word list \<Rightarrow> nat \<Rightarrow> jsnum" where
  "rd d i = (if i < length d then Fin (real (unat (d ! i))) else NaN)"

definition ToUint8Clamp :: "jsnum \<Rightarrow> 8 word" where
  "ToUint8Clamp v =
     (case v of
        NaN \<Rightarrow> 0
      | PosInf \<Rightarrow> 255
      | NegInf \<Rightarrow> 0
      | Fin x \<Rightarrow>
          (if x \<le> 0 then 0
           else if 255 \<le> x then 255
           else (let f = \<lfloor>x\<rfloor>
                 in if real_of_int f + 1 / 2 < x then of_int (f + 1)
                    else if x < real_of_int f + 1 / 2 then of_int f
                    else if even f then of_int f
                    else of_int (f + 1))))"

text \<open>\<open>Math.max(a, b)\<close>.\<close>

fun js_max :: "jsnum \<Rightarrow> jsnum \<Rightarrow> jsnum" where
  "js_max NaN _ = NaN"
| "js_max _ NaN = NaN"
| "js_max a b = (if js_lt a b then b else a)"

text \<open>\<open>new ImageData(width, height)\<close>: all bytes zero; a zero dimension is refused.\<close>

definition new_ImageData :: "nat \<Rightarrow> nat \<Rightarrow> error + ImageData" where
  "new_ImageData w h =
     (if w = 0 \<or> h = 0 then Inl IndexSizeError
      else Inr \<lparr> id_width = w, id_height = h, id_data = replicate (w * h * 4) 0 \<rparr>)"

subsection \<open>Sharpening\<close>

text \<open>The body of the loop over the three colour channels, for the pixel at \<open>(x, y)\<close>.\<close>

definition sharpen_channel :: "8 word list \<Rightarrow> nat \<Rightarrow> nat \<Rightarrow> nat \<Rightarrow> nat \<Rightarrow> jsnum" where
  "sharpen_channel d w y x c =
     (let sharpenAmount = Fin 0.2;
          idx = (y * w + x) * 4;
          center = rd d (idx + c);
          above = rd d (((y - 1) * w + x) * 4 + c);
          below = rd d (((y + 1) * w + x) * 4 + c);
          left = rd d ((y * w + (x - 1)) * 4 + c);
          right = rd d ((y * w + (x + 1)) * 4 + c);
          average = js_div (js_add (js_add (js_add above below) left) right) (Fin 4);
          sharpened = js_add center (js_mul (js_sub center average) sharpenAmount)
      in js_max (Fin 0) (js_min (Fin 255) sharpened))"

text \<open>The body of the loop over \<open>x\<close>: three colour channels, then the alpha channel.\<close>

definition sharpen_pixel :: "8 word list \<Rightarrow> nat \<Rightarrow> nat \<Rightarrow> nat \<Rightarrow> 8 word list \<Rightarrow> 8 word list" where
  "sharpen_pixel d w y x outData =
     (let idx = (y * w + x) * 4;
          out3 = fold (\<lambda>c out. out[idx + c := ToUint8Clamp (sharpen_channel d w y x c)])
                   [0..<3] outData
      in out3[idx + 3 := ToUint8Clamp (rd d (idx + 3))])"

definition applySharpeningFilter :: "ImageData \<Rightarrow> error + ImageData" where
  "applySharpeningFilter imageData =
     (let d = id_data imageData;
          w = id_width imageData;
          h = id_height imageData
      in case new_ImageData w h of
           Inl e \<Rightarrow> Inl e
         | Inr output \<Rightarrow>
             Inr (output \<lparr> id_data :=
               fold (\<lambda>y out. fold (\<lambda>x out'. sharpen_pixel d w y x out') [1..<w - 1] out)
                 [1..<h - 1] (id_data output) \<rparr>))"

subsection \<open>Contrast\<close>

definition contrast_factor :: "real \<Rightarrow> jsnum" where
  "contrast_factor contrast =
     js_div (Fin (259 * (contrast * 255 + 255))) (Fin (255 * (259 - contrast * 255)))"

definition contrast_channel :: "jsnum \<Rightarrow> jsnum \<Rightarrow> 8 word" where
  "contrast_channel factor v =
     (let adjusted = js_add (js_mul factor (js_sub v (Fin 128))) (Fin 128)
      in ToUint8Clamp (js_max (Fin 0) (js_min (Fin 255) adjusted)))"

text \<open>The body of the loop over the pixels: the pixel whose first byte is at \<open>i\<close>.\<close>

definition contrast_pixel :: "jsnum \<Rightarrow> nat \<Rightarrow> 8 word list \<Rightarrow> 8 word list" where
  "contrast_pixel factor i d =
     fold (\<lambda>c d'. d'[i + c := contrast_channel factor (rd d' (i + c))]) [0..<3] d"

text \<open>The loop runs over \<open>i = 0, 4, 8, ...\<close> while \<open>i < data.length\<close>, in place.\<close>

definition applyContrastAdjustment :: "ImageData \<Rightarrow> real \<Rightarrow> ImageData" where
  "applyContrastAdjustment imageData contrast =
     (let d = id_data imageData;
          factor = contrast_factor contrast
      in imageData \<lparr> id_data :=
           fold (\<lambda>k d'. contrast_pixel factor (4 * k) d') [0..<(length d + 3) div 4] d \<rparr>)"

definition applyOptimizations :: "ImageData \<Rightarrow> error + ImageData" where
  "applyOptimizations imageData =
     (case applySharpeningFilter imageData of
        Inl e \<Rightarrow> Inl e
      | Inr sharpened \<Rightarrow> Inr (applyContrastAdjustment sharpened 1.1))"

section \<open>Validator\<close>

subsection \<open>Geometry\<close>

text \<open>
  \<open>points[i]\<close> followed by a property read: reading a property of \<open>undefined\<close> throws
  a TypeError, the only exception of the validator's own code; it is the value \<open>None\<close>.
\<close>

definition elem_at :: "'a list \<Rightarrow> nat \<Rightarrow> 'a option" where
  "elem_at xs i = (if i < length xs then Some (xs ! i) else None)"

record jspoint =
  js_x :: jsnum
  js_y :: jsnum

definition getCenter :: "point list \<Rightarrow> jspoint" where
  "getCenter points =
     (let sum = fold (\<lambda>point acc. \<lparr> pt_x = pt_x acc + pt_x point, pt_y = pt_y acc + pt_y point \<rparr>)
                  points \<lparr> pt_x = 0, pt_y = 0 \<rparr>
      in \<lparr> js_x = js_div (Fin (pt_x sum)) (Fin (real (length points))),
           js_y = js_div (Fin (pt_y sum)) (Fin (real (length points))) \<rparr>)"

record angles =
  yaw :: jsnum
  roll :: jsnum

definition calculateFaceAngles :: "landmarks \<Rightarrow> angles option" where
  "calculateFaceAngles lm =
     (let leftEye = getLeftEye lm;
          rightEye = getRightEye lm;
          nose = getNose lm;
          leftEyeCenter = getCenter leftEye;
          rightEyeCenter = getCenter rightEye;
          dx = js_sub (js_x rightEyeCenter) (js_x leftEyeCenter);
          dy = js_sub (js_y rightEyeCenter) (js_y leftEyeCenter);
          roll' = js_mul (js_atan2 dy dx) (Fin (180 / pi));
          eyesCenterX = js_div (js_add (js_x leftEyeCenter) (js_x rightEyeCenter)) (Fin 2)
      in do {
           nose0 \<leftarrow> elem_at nose 0;
           let noseX = Fin (pt_x nose0);
           let faceWidth = js_abs (js_sub (js_x rightEyeCenter) (js_x leftEyeCenter));
           let noseOffset = js_div (js_sub noseX eyesCenterX) faceWidth;
           let yaw' = js_mul noseOffset (Fin 45);
           Some \<lparr> yaw = yaw', roll = roll' \<rparr>
         })"

text \<open>
  The eye aspect ratio of one eye: the height between points 1 and 5 over the width
  between points 3 and 0. The source computes it for the left and the right eye side by
  side. The two subtractions, the division and the literal \<open>0.15\<close> are doubles: each is
  the exact result rounded.
\<close>

definition eyeAspectRatio :: "point list \<Rightarrow> jsnum option" where
  "eyeAspectRatio eye =
     do {
       p1 \<leftarrow> elem_at eye 1;
       p5 \<leftarrow> elem_at eye 5;
       p3 \<leftarrow> elem_at eye 3;
       p0 \<leftarrow> elem_at eye 0;
       let eyeHeight = js_abs (js_sub64 (Fin (pt_y p1)) (Fin (pt_y p5)));
       let eyeWidth = js_abs (js_sub64 (Fin (pt_x p3)) (Fin (pt_x p0)));
       Some (js_div64 eyeHeight eyeWidth)
     }"

definition checkEyesVisible :: "landmarks \<Rightarrow> bool option" where
  "checkEyesVisible lm =
     do {
       leftEAR \<leftarrow> eyeAspectRatio (getLeftEye lm);
       rightEAR \<leftarrow> eyeAspectRatio (getRightEye lm);
       let minEAR = fl 0.15;
       Some (js_gt leftEAR minEAR \<and> js_gt rightEAR minEAR)
     }"

definition checkFaceInFrame :: "box \<Rightarrow> nat \<Rightarrow> nat \<Rightarrow> bool" where
  "checkFaceInFrame b imgWidth imgHeight =
     (let margin = 20
      in box_x b \<ge> margin \<and>
         box_y b \<ge> margin \<and>
         box_x b + box_width b \<le> real imgWidth - margin \<and>
         box_y b + box_height b \<le> real imgHeight - margin)"

definition checkNeutralExpression :: "landmarks \<Rightarrow> bool option" where
  "checkNeutralExpression lm =
     (let mouth = getMouth lm
      in do {
           m14 \<leftarrow> elem_at mouth 14;
           m18 \<leftarrow> elem_at mouth 18;
           m12 \<leftarrow> elem_at mouth 12;
           m16 \<leftarrow> elem_at mouth 16;
           let mouthHeight = \<bar>pt_y m14 - pt_y m18\<bar>;
           let mouthWidth = \<bar>pt_x m12 - pt_x m16\<bar>;
           let mouthAR = js_div (Fin mouthHeight) (Fin mouthWidth);
           Some (js_lt mouthAR (Fin 0.35))
         })"

subsection \<open>The report\<close>

record check =
  passed :: bool
  message :: string
  check_note :: "string option"

text \<open>
  \<open>checks\<close> is an object used as an ordered mapping: an assignment to a new key appends
  it, an assignment to an old key replaces its value in place.
\<close>

record validation_result =
  isValid :: bool
  checks :: "(string \<times> check) list"
  faceData :: "faceData option"

definition set_check :: "string \<Rightarrow> check \<Rightarrow> validation_result \<Rightarrow> validation_result" where
  "set_check k c r = r \<lparr> checks := AList.update k c (checks r) \<rparr>"

definition invalidate :: "validation_result \<Rightarrow> validation_result" where
  "invalidate r = r \<lparr> isValid := False \<rparr>"

text \<open>Check 2, from the angles.\<close>

definition check_faceFrontal :: "angles \<Rightarrow> validation_result \<Rightarrow> validation_result" where
  "check_faceFrontal a r =
     (let maxYaw = Fin 15; maxRoll = Fin 15
      in if js_gt (js_abs (yaw a)) maxYaw \<or> js_gt (js_abs (roll a)) maxRoll
         then invalidate (set_check ''faceFrontal''
                \<lparr> passed = False,
                  message = ''Face not frontal enough (yaw: '' @ toFixed (yaw a) 1 @ degree_sign
                    @ '', roll: '' @ toFixed (roll a) 1 @ degree_sign @ '')'',
                  check_note = None \<rparr> r)
         else set_check ''faceFrontal''
                \<lparr> passed = True,
                  message = ''Face is frontal (yaw: '' @ toFixed (yaw a) 1 @ degree_sign
                    @ '', roll: '' @ toFixed (roll a) 1 @ degree_sign @ '') '' @ check_mark,
                  check_note = None \<rparr> r)"

text \<open>Check 3.\<close>

definition check_eyesVisible :: "bool \<Rightarrow> validation_result \<Rightarrow> validation_result" where
  "check_eyesVisible eyesVisible r =
     (let r' = set_check ''eyesVisible''
                 \<lparr> passed = eyesVisible,
                   message = (if eyesVisible then ''Both eyes clearly visible '' @ check_mark
                              else ''Eyes not clearly visible or closed''),
                   check_note = None \<rparr> r
      in if \<not> eyesVisible then invalidate r' else r')"

text \<open>Check 4.\<close>

definition check_faceInFrame :: "bool \<Rightarrow> validation_result \<Rightarrow> validation_result" where
  "check_faceInFrame fullyInFrame r =
     (let r' = set_check ''faceInFrame''
                 \<lparr> passed = fullyInFrame,
                   message = (if fullyInFrame then ''Face fully contained in frame '' @ check_mark
                              else ''Face is cut off or too close to edges''),
                   check_note = None \<rparr> r
      in if \<not> fullyInFrame then invalidate r' else r')"

text \<open>Check 5.\<close>

definition check_headSize :: "box \<Rightarrow> image \<Rightarrow> validation_result \<Rightarrow> validation_result" where
  "check_headSize b img r =
     (let headSizeRatio = js_div (Fin (box_height b)) (Fin (real (img_height img)));
          minRatio = Fin 0.5;
          maxRatio = Fin 0.75;
          percent = toFixed (js_mul headSizeRatio (Fin 100)) 0
      in if js_lt headSizeRatio minRatio \<or> js_gt headSizeRatio maxRatio
         then invalidate (set_check ''headSize''
                \<lparr> passed = False,
                  message = ''Head size ''
                    @ (if js_lt headSizeRatio minRatio then ''too small'' else ''too large'')
                    @ '' ('' @ percent @ ''% of frame)'',
                  check_note = None \<rparr> r)
         else set_check ''headSize''
                \<lparr> passed = True,
                  message = ''Head size appropriate ('' @ percent @ ''% of frame) '' @ check_mark,
                  check_note = None \<rparr> r)"

text \<open>Check 6.\<close>

definition check_expression :: "bool \<Rightarrow> validation_result \<Rightarrow> validation_result" where
  "check_expression expressionNeutral r =
     (let r' = set_check ''expression''
                 \<lparr> passed = expressionNeutral,
                   message = (if expressionNeutral then ''Expression appears neutral '' @ check_mark
                              else ''Expression may not be neutral - mouth appears open''),
                   check_note = None \<rparr> r
      in if \<not> expressionNeutral then invalidate r' else r')"

text \<open>Check 7, which always passes.\<close>

definition check_glasses :: "validation_result \<Rightarrow> validation_result" where
  "check_glasses r =
     set_check ''glassesCheck''
       \<lparr> passed = True,
         message = ''Manual verification required'',
         check_note = Some (''LIMITATION: Automated glasses detection not implemented. ''
                      @ ''If wearing glasses, please ensure no glare on lenses.'') \<rparr> r"

text \<open>
  \<open>validatePhoto\<close> after its three awaits: the models are loaded, the image is decoded
  and the detector has returned its detections. A failure of one of the awaits rejects
  the promise before any of this code runs.
\<close>

definition validatePhoto :: "image \<Rightarrow> detection list \<Rightarrow> validation_result option" where
  "validatePhoto img detections =
     (let result = \<lparr> isValid = True, checks = [], faceData = None \<rparr>
      in if length detections = 0 then
           Some (invalidate (set_check ''faceDetected''
             \<lparr> passed = False, message = ''No face detected in the image'', check_note = None \<rparr>
             result))
         else if length detections > 1 then
           Some (invalidate (set_check ''faceDetected''
             \<lparr> passed = False,
               message = ''Multiple faces detected ('' @ string_of_nat (length detections)
                 @ ''). Only one person allowed.'',
               check_note = None \<rparr>
             result))
         else do {
           let r1 = set_check ''faceDetected''
             \<lparr> passed = True, message = ''Single face detected '' @ check_mark, check_note = None \<rparr>
             result;
           let detection = detections ! 0;
           let b = det_box detection;
           let lm = det_landmarks detection;
           let r1' = r1 \<lparr> faceData := Some \<lparr> fd_x = box_x b, fd_y = box_y b,
                      fd_width = box_width b, fd_height = box_height b,
                      fd_landmarks = lm \<rparr> \<rparr>;
           a \<leftarrow> calculateFaceAngles lm;
           let r2 = check_faceFrontal a r1';
           eyesVisible \<leftarrow> checkEyesVisible lm;
           let r3 = check_eyesVisible eyesVisible r2;
           let fullyInFrame = checkFaceInFrame b (img_width img) (img_height img);
           let r4 = check_faceInFrame fullyInFrame r3;
           let r5 = check_headSize b img r4;
           expressionNeutral \<leftarrow> checkNeutralExpression lm;
           let r6 = check_expression expressionNeutral r5;
           Some (check_glasses r6)
         })"

text \<open>
  The detector's contract for the landmark groups that the validator indexes: six points
  per eye, nine for the nose, twenty for the mouth.
\<close>

definition wf_landmarks :: "landmarks \<Rightarrow> bool" where
  "wf_landmarks lm =
     (length (getLeftEye lm) = 6 \<and> length (getRightEye lm) = 6 \<and>
      length (getNose lm) = 9 \<and> length (getMouth lm) = 20)"

text \<open>Scaling every coordinate of a landmark group by \<open>k\<close>.\<close>

definition scale_point :: "real \<Rightarrow> point \<Rightarrow> point" where
  "scale_point k p = \<lparr> pt_x = k * pt_x p, pt_y = k * pt_y p \<rparr>"

definition scale_landmarks :: "real \<Rightarrow> landmarks \<Rightarrow> landmarks" where
  "scale_landmarks k lm =
     \<lparr> getLeftEye = map (scale_point k) (getLeftEye lm),
       getRightEye = map (scale_point k) (getRightEye lm),
       getNose = map (scale_point k) (getNose lm),
       getMouth = map (scale_point k) (getMouth lm) \<rparr>"

text \<open>
  The rounded difference \<open>d\<close> scales exactly by \<open>k\<close> in three cases: it is zero; or \<open>k\<close>
  is the power of two \<open>2^n\<close> and neither \<open>d\<close> nor \<open>k * d\<close> overflows or falls below the
  smallest normal double on rounding; or \<open>d\<close> and \<open>k * d\<close> are doubles themselves, so
  that the subtractions that produce them are exact.
\<close>

definition scales_exactly :: "real \<Rightarrow> int \<Rightarrow> real \<Rightarrow> bool" where
  "scales_exactly k n d =
     (d = 0 \<or>
      (k = 2 powi n \<and> rounds_normally d \<and> rounds_normally (k * d)) \<or>
      (is_double d \<and> is_double (k * d)))"

definition eye_scales_exactly :: "real \<Rightarrow> int \<Rightarrow> point list \<Rightarrow> bool" where
  "eye_scales_exactly k n eye =
     (scales_exactly k n (pt_y (eye ! 1) - pt_y (eye ! 5)) \<and>
      scales_exactly k n (pt_x (eye ! 3) - pt_x (eye ! 0)))"

text \<open>Landmarks all of whose coordinates are doubles.\<close>

definition double_point :: "point \<Rightarrow> bool" where
  "double_point p = (is_double (pt_x p) \<and> is_double (pt_y p))"

definition double_landmarks :: "landmarks \<Rightarrow> bool" where
  "double_landmarks lm =
     (list_all double_point (getLeftEye lm) \<and> list_all double_point (getRightEye lm) \<and>
      list_all double_point (getNose lm) \<and> list_all double_point (getMouth lm))"

section \<open>Example inputs\<close>

text \<open>
  A synthetic frontal face: two eyes of six points each with aspect ratio \<open>9 / 30\<close>, whose
  centroids are \<open>100\<close> apart in \<open>x\<close> and \<open>t\<close> apart in \<open>y\<close>, a nose of nine points on the
  midline, and a closed mouth of twenty points.
\<close>

definition example_eye :: "real \<Rightarrow> real \<Rightarrow> point list" where
  "example_eye cx cy =
     [\<lparr> pt_x = cx - 15, pt_y = cy \<rparr>,
      \<lparr> pt_x = cx - 5, pt_y = cy - 4.5 \<rparr>,
      \<lparr> pt_x = cx + 5, pt_y = cy - 4.5 \<rparr>,
      \<lparr> pt_x = cx + 15, pt_y = cy \<rparr>,
      \<lparr> pt_x = cx + 5, pt_y = cy + 4.5 \<rparr>,
      \<lparr> pt_x = cx - 5, pt_y = cy + 4.5 \<rparr>]"

definition example_mouth :: "point list" where
  "example_mouth =
     map (\<lambda>i. if i = 12 then \<lparr> pt_x = 430, pt_y = 500 \<rparr>
               else if i = 14 then \<lparr> pt_x = 450, pt_y = 498 \<rparr>
               else if i = 16 then \<lparr> pt_x = 470, pt_y = 500 \<rparr>
               else if i = 18 then \<lparr> pt_x = 450, pt_y = 502 \<rparr>
               else \<lparr> pt_x = 450, pt_y = 500 \<rparr>) [0..<20]"

definition example_landmarks :: "real \<Rightarrow> landmarks" where
  "example_landmarks t =
     \<lparr> getLeftEye = example_eye 400 350,
       getRightEye = example_eye 500 (350 + t),
       getNose = map (\<lambda>i. \<lparr> pt_x = 450, pt_y = 400 + 5 * real i \<rparr>) [0..<9],
       getMouth = example_mouth \<rparr>"

text \<open>A detection of that face in a box of height \<open>h\<close>.\<close>

definition example_detection :: "real \<Rightarrow> detection" where
  "example_detection h =
     \<lparr> det_box = \<lparr> box_x = 300, box_y = 200, box_width = 300, box_height = h \<rparr>,
       det_landmarks = example_landmarks 0 \<rparr>"

definition example_image :: image where
  "example_image = \<lparr> img_width = 1000, img_height = 1000 \<rparr>"

text \<open>
  A raster of 3 by 3 opaque pixels, grey \<open>(200, 200, 200)\<close> around a centre of
  \<open>(100, 150, 250)\<close>; and a raster of two pixels with channel values on both sides of
  the middle range.
\<close>

definition example_raster :: ImageData where
  "example_raster = \<lparr> id_width = 3, id_height = 3,
     id_data = [200, 200, 200, 255,  200, 200, 200, 255,  200, 200, 200, 255,
                200, 200, 200, 255,  100, 150, 250, 255,  200, 200, 200, 255,
                200, 200, 200, 255,  200, 200, 200, 255,  200, 200, 200, 255] \<rparr>"

definition example_pixels :: ImageData where
  "example_pixels = \<lparr> id_width = 2, id_height = 1,
     id_data = [255, 0, 134, 77, 122, 123, 133, 9] \<rparr>"

text \<open>
  An eye whose lids are at \<open>y = 3\<close> and \<open>y = -17 * 2^-56\<close> and whose corners are 20
  apart, and landmarks with this eye on the left; every coordinate is a double, and so
  is its triple.
\<close>

definition rounding_eye :: "point list" where
  "rounding_eye =
     [\<lparr> pt_x = 0, pt_y = 0 \<rparr>,
      \<lparr> pt_x = 5, pt_y = 3 \<rparr>,
      \<lparr> pt_x = 15, pt_y = 3 \<rparr>,
      \<lparr> pt_x = 20, pt_y = 0 \<rparr>,
      \<lparr> pt_x = 15, pt_y = - (17 / 2 ^ 56) \<rparr>,
      \<lparr> pt_x = 5, pt_y = - (17 / 2 ^ 56) \<rparr>]"


definition rounding_landmarks :: landmarks where
  "rounding_landmarks =
     \<lparr> getLeftEye = rounding_eye,
       getRightEye = example_eye 500 350,
       getNose = map (\<lambda>i. \<lparr> pt_x = 450, pt_y = 420 \<rparr>) [0..<9],
       getMouth = map (\<lambda>i. \<lparr> pt_x = 450, pt_y = 500 \<rparr>) [0..<20] \<rparr>"

section \<open>Pixel dimensions\<close>

lemma grid10x15_eval:
  "grid10x15 = \<lparr> canvasWidth = 1181, canvasHeight = 1772, photoWidthPx = 354,
     photoHeightPx = 472, spacingPx = 59, marginX = 1 / 2, marginY = 119, cols = 3, rows = 3 \<rparr>"
  by (simp add: grid10x15_def Math_round_def MM_TO_INCH_def DPI_def Let_def)

lemma gridA4_eval:
  "gridA4 = \<lparr> canvasWidth = 2480, canvasHeight = 3508, photoWidthPx = 354,
     photoHeightPx = 472, spacingPx = 177, marginX = 236, marginY = 236, cols = 2, rows = 3 \<rparr>"
  by (simp add: gridA4_def Math_round_def MM_TO_INCH_def DPI_def Let_def)

text \<open>
  The products that are rounded are far from a rounding tie: an error of up to \<open>1/20\<close>
  in a product, far more than the rounding error of a double, does not change the
  rounded value.
\<close>

lemma Math_round_robust:
  fixes e :: real
  assumes "\<bar>e\<bar> \<le> 1 / 20"
  shows "Math_round (3 * 0.393701 * 300 + e) = 354"
    and "Math_round (4 * 0.393701 * 300 + e) = 472"
    and "Math_round (210 * 0.0393701 * 300 + e) = 2480"
    and "Math_round (297 * 0.0393701 * 300 + e) = 3508"
    and "Math_round (100 * 0.0393701 * 300 + e) = 1181"
    and "Math_round (150 * 0.0393701 * 300 + e) = 1772"
    and "Math_round (5 * 0.0393701 * 300 + e) = 59"
proof -
  have "- (1 / 20) \<le> e" and "e \<le> 1 / 20"
    using assms by linarith+
  then show "Math_round (3 * 0.393701 * 300 + e) = 354"
    and "Math_round (4 * 0.393701 * 300 + e) = 472"
    and "Math_round (210 * 0.0393701 * 300 + e) = 2480"
    and "Math_round (297 * 0.0393701 * 300 + e) = 3508"
    and "Math_round (100 * 0.0393701 * 300 + e) = 1181"
    and "Math_round (150 * 0.0393701 * 300 + e) = 1772"
    and "Math_round (5 * 0.0393701 * 300 + e) = 59"
    by (simp_all add: Math_round_def floor_eq_iff)
qed

text \<open>
  C3. Whatever the input image or photo, the processed-photo canvas is
  \<open>round(3 * 0.393701 * 300)\<close> by \<open>round(4 * 0.393701 * 300)\<close>, which is 354 by 472; the A4
  sheet is \<open>round(210 * 0.0393701 * 300)\<close> by \<open>round(297 * 0.0393701 * 300)\<close>, which is
  2480 by 3508; the 10x15 sheet is \<open>round(100 * 0.0393701 * 300)\<close> by
  \<open>round(150 * 0.0393701 * 300)\<close>, which is 1181 by 1772.
\<close>

theorem raster_dimensions:
  "res_width (applyWhiteBackgroundAndResize img) = Math_round (3 * 0.393701 * 300) \<and>
   res_height (applyWhiteBackgroundAndResize img) = Math_round (4 * 0.393701 * 300) \<and>
   Math_round (3 * 0.393701 * 300) = 354 \<and> Math_round (4 * 0.393701 * 300) = 472 \<and>
   sheet_width (generateA4Layout photo) = Math_round (210 * 0.0393701 * 300) \<and>
   sheet_height (generateA4Layout photo) = Math_round (297 * 0.0393701 * 300) \<and>
   Math_round (210 * 0.0393701 * 300) = 2480 \<and> Math_round (297 * 0.0393701 * 300) = 3508 \<and>
   sheet_width (generate10x15Layout photo) = Math_round (100 * 0.0393701 * 300) \<and>
   sheet_height (generate10x15Layout photo) = Math_round (150 * 0.0393701 * 300) \<and>
   Math_round (100 * 0.0393701 * 300) = 1181 \<and> Math_round (150 * 0.0393701 * 300) = 1772"
  by (simp add: applyWhiteBackgroundAndResize_def generateA4Layout_def generate10x15Layout_def
      gridA4_eval grid10x15_eval Let_def Math_round_def)

text \<open>
  C10. The 10x15 layout has a canvas of 1181 by 1772, cells of 354 by 472, a spacing of
  \<open>round(5 * 0.0393701 * 300) = 59\<close> and a grid of 3 by 3; its margins are \<open>1 / 2\<close> and
  \<open>119\<close>, both non-negative; all nine drawn photos lie within the canvas; the grid spans
  1180 of the 1181 horizontal pixels, which leaves less than one pixel on each side.
\<close>

theorem layout10x15_margins:
  "canvasWidth grid10x15 = 1181 \<and> canvasHeight grid10x15 = 1772 \<and>
   photoWidthPx grid10x15 = 354 \<and> photoHeightPx grid10x15 = 472 \<and>
   spacingPx grid10x15 = Math_round (5 * 0.0393701 * 300) \<and> spacingPx grid10x15 = 59 \<and>
   cols grid10x15 = 3 \<and> rows grid10x15 = 3 \<and>
   marginX grid10x15 = (1181 - (3 * 354 + 2 * 59)) / 2 \<and> marginX grid10x15 = 1 / 2 \<and>
   marginY grid10x15 = (1772 - (3 * 472 + 2 * 59)) / 2 \<and> marginY grid10x15 = 119 \<and>
   0 \<le> marginX grid10x15 \<and> 0 \<le> marginY grid10x15 \<and>
   list_all (op_within (sheet_width (generate10x15Layout photo))
                       (sheet_height (generate10x15Layout photo)))
     (sheet_ops (generate10x15Layout photo)) \<and>
   length (filter is_DrawImage (sheet_ops (generate10x15Layout photo))) = 9 \<and>
   cell_x grid10x15 2 + real_of_int (photoWidthPx grid10x15) - cell_x grid10x15 0 = 1180 \<and>
   cell_x grid10x15 0 < 1 \<and>
   real_of_int (canvasWidth grid10x15)
     - (cell_x grid10x15 2 + real_of_int (photoWidthPx grid10x15)) < 1"
  by (simp add: generate10x15Layout_def grid10x15_eval Let_def Math_round_def drawGrid_def
      cell_x_def cell_y_def upt_rec)

section \<open>Crop\<close>



section \<open>Validation report\<close>

subsection \<open>No face or several faces\<close>

text \<open>
  C1. When the detector returns no face or more than one, the report is produced and is
  exactly this: \<open>isValid\<close> false, no face data, and one check, \<open>faceDetected\<close>, failed;
  its message is the fixed text for no face, or the text for several faces with their
  count in decimal. The checks \<open>faceFrontal\<close>, \<open>eyesVisible\<close>, \<open>faceInFrame\<close>,
  \<open>headSize\<close>, \<open>expression\<close> and \<open>glassesCheck\<close> are not among its entries.
\<close>

theorem no_single_face_report:
  assumes "length ds \<noteq> 1"
  shows "validatePhoto img ds =
     Some \<lparr> isValid = False,
            checks = [(''faceDetected'',
              \<lparr> passed = False,
                message = (if length ds = 0 then ''No face detected in the image''
                           else ''Multiple faces detected ('' @ string_of_nat (length ds)
                                @ ''). Only one person allowed.''),
                check_note = None \<rparr>)],
            faceData = None \<rparr>"
proof (cases "length ds = 0")
  case True
  then show ?thesis
    by (simp add: validatePhoto_def set_check_def invalidate_def Let_def)
next
  case False
  have "1 < length ds" using assms False by linarith
  with False show ?thesis
    by (simp add: validatePhoto_def set_check_def invalidate_def Let_def
          del: string_of_nat.simps)
qed

theorem no_single_face_report_witness:
  "length ([] :: detection list) \<noteq> 1 \<and>
   length [example_detection 400, example_detection 400] \<noteq> 1 \<and>
   validatePhoto example_image [] =
     Some \<lparr> isValid = False,
            checks = [(''faceDetected'',
              \<lparr> passed = False, message = ''No face detected in the image'',
                check_note = None \<rparr>)],
            faceData = None \<rparr> \<and>
   validatePhoto example_image [example_detection 400, example_detection 400] =
     Some \<lparr> isValid = False,
            checks = [(''faceDetected'',
              \<lparr> passed = False,
                message = ''Multiple faces detected (2). Only one person allowed.'',
                check_note = None \<rparr>)],
            faceData = None \<rparr>"
  using no_single_face_report [of "[]" example_image]
        no_single_face_report [of "[example_detection 400, example_detection 400]" example_image]
  by (simp add: digit_char_def)

subsection \<open>One face\<close>

lemma faceData_set_check: "faceData (set_check k c r) = faceData r"
  by (simp add: set_check_def)

lemma faceData_invalidate: "faceData (invalidate r) = faceData r"
  by (simp add: invalidate_def)

lemma checks_invalidate: "checks (invalidate r) = checks r"
  by (simp add: invalidate_def)

lemma map_of_set_check: "map_of (checks (set_check k c r)) = (map_of (checks r))(k \<mapsto> c)"
  by (simp add: set_check_def update_conv')

lemma faceData_check_faceFrontal: "faceData (check_faceFrontal a r) = faceData r"
  by (simp add: check_faceFrontal_def Let_def faceData_set_check faceData_invalidate)

lemma faceData_check_eyesVisible: "faceData (check_eyesVisible e r) = faceData r"
  by (simp add: check_eyesVisible_def Let_def faceData_set_check faceData_invalidate)

lemma faceData_check_faceInFrame: "faceData (check_faceInFrame e r) = faceData r"
  by (simp add: check_faceInFrame_def Let_def faceData_set_check faceData_invalidate)

lemma faceData_check_headSize: "faceData (check_headSize b img r) = faceData r"
  by (simp add: check_headSize_def Let_def faceData_set_check faceData_invalidate)

lemma faceData_check_expression: "faceData (check_expression e r) = faceData r"
  by (simp add: check_expression_def Let_def faceData_set_check faceData_invalidate)

lemma faceData_check_glasses: "faceData (check_glasses r) = faceData r"
  by (simp add: check_glasses_def faceData_set_check)

lemmas faceData_checks = faceData_check_faceFrontal faceData_check_eyesVisible
  faceData_check_faceInFrame faceData_check_headSize faceData_check_expression
  faceData_check_glasses faceData_set_check

lemma headSize_check_expression:
  "map_of (checks (check_expression e r)) ''headSize'' = map_of (checks r) ''headSize''"
  by (simp add: check_expression_def Let_def map_of_set_check checks_invalidate)

lemma headSize_check_glasses:
  "map_of (checks (check_glasses r)) ''headSize'' = map_of (checks r) ''headSize''"
  by (simp add: check_glasses_def map_of_set_check)

lemma headSize_check_headSize:
  "\<exists>c. map_of (checks (check_headSize b img r)) ''headSize'' = Some c \<and>
       passed c =
         (\<not> (js_lt (js_div (Fin (box_height b)) (Fin (real (img_height img)))) (Fin 0.5) \<or>
             js_gt (js_div (Fin (box_height b)) (Fin (real (img_height img)))) (Fin 0.75)))"
  by (simp add: check_headSize_def Let_def map_of_set_check checks_invalidate)

lemma headSize_ratio:
  "0 < h \<Longrightarrow>
   (\<not> (js_lt (js_div (Fin a) (Fin (real h))) (Fin 0.5) \<or>
       js_gt (js_div (Fin a) (Fin (real h))) (Fin 0.75)))
   = (1 / 2 \<le> a / real h \<and> a / real h \<le> 3 / 4)"
  by (auto simp: js_gt_def)

lemma wf_angles: "wf_landmarks lm \<Longrightarrow> \<exists>a. calculateFaceAngles lm = Some a"
  by (auto simp: wf_landmarks_def calculateFaceAngles_def Let_def elem_at_def)

lemma wf_eyes: "wf_landmarks lm \<Longrightarrow> \<exists>e. checkEyesVisible lm = Some e"
  by (simp add: wf_landmarks_def checkEyesVisible_def eyeAspectRatio_def Let_def elem_at_def)

lemma wf_expression: "wf_landmarks lm \<Longrightarrow> \<exists>e. checkNeutralExpression lm = Some e"
  by (simp add: wf_landmarks_def checkNeutralExpression_def Let_def elem_at_def)

lemma wf_example_landmarks: "wf_landmarks (example_landmarks t)"
  by (simp add: wf_landmarks_def example_landmarks_def example_eye_def example_mouth_def)

text \<open>The branch for one detection, as the sequence of its checks.\<close>

lemma validatePhoto_single:
  "validatePhoto img [d] =
     do {
       a \<leftarrow> calculateFaceAngles (det_landmarks d);
       eyesVisible \<leftarrow> checkEyesVisible (det_landmarks d);
       expressionNeutral \<leftarrow> checkNeutralExpression (det_landmarks d);
       Some (check_glasses (check_expression expressionNeutral (check_headSize (det_box d) img
         (check_faceInFrame (checkFaceInFrame (det_box d) (img_width img) (img_height img))
           (check_eyesVisible eyesVisible (check_faceFrontal a
             ((set_check ''faceDetected''
                \<lparr> passed = True, message = ''Single face detected '' @ check_mark,
                  check_note = None \<rparr>
                \<lparr> isValid = True, checks = [], faceData = None \<rparr>)
              \<lparr> faceData := Some \<lparr> fd_x = box_x (det_box d), fd_y = box_y (det_box d),
                      fd_width = box_width (det_box d), fd_height = box_height (det_box d),
                      fd_landmarks = det_landmarks d \<rparr> \<rparr>)))))))
     }"
  by (simp add: validatePhoto_def Let_def split: Option.bind_split)

lemma faceData_none_unless_single:
  assumes "length ds \<noteq> 1" and "validatePhoto img ds = Some r"
  shows "faceData r = None"
proof (cases "length ds = 0")
  case True
  with assms(2) show ?thesis
    by (auto simp: validatePhoto_def set_check_def invalidate_def Let_def)
next
  case False
  have "1 < length ds" using assms(1) False by linarith
  with False assms(2) show ?thesis
    by (auto simp: validatePhoto_def set_check_def invalidate_def Let_def
          simp del: string_of_nat.simps)
qed

text \<open>
  C6. Every report that is produced carries face data exactly when there is one
  detection, and then it is \<open>{x, y, width, height, landmarks}\<close> of that detection,
  whatever the checks 2 to 7 say. With one detection a report is produced whenever the
  landmark groups have the sizes of the detector's contract (otherwise an index is out
  of range and the code throws).
\<close>

theorem faceData_attached:
  "(length ds = 1 \<and> wf_landmarks (det_landmarks (ds ! 0)) \<longrightarrow>
      (\<exists>r. validatePhoto img ds = Some r)) \<and>
   (\<forall>r. validatePhoto img ds = Some r \<longrightarrow>
      faceData r =
        (if length ds = 1
         then Some \<lparr> fd_x = box_x (det_box (ds ! 0)), fd_y = box_y (det_box (ds ! 0)),
                     fd_width = box_width (det_box (ds ! 0)),
                     fd_height = box_height (det_box (ds ! 0)),
                     fd_landmarks = det_landmarks (ds ! 0) \<rparr>
         else None))"
proof (cases "length ds = 1")
  case True
  then obtain d where ds: "ds = [d]"
    by (cases ds) auto
  have total: "\<exists>r. validatePhoto img [d] = Some r" if "wf_landmarks (det_landmarks d)"
    using wf_angles [OF that] wf_eyes [OF that] wf_expression [OF that]
    by (auto simp: validatePhoto_single)
  have attached: "faceData r = Some \<lparr> fd_x = box_x (det_box d), fd_y = box_y (det_box d),
                      fd_width = box_width (det_box d), fd_height = box_height (det_box d),
                      fd_landmarks = det_landmarks d \<rparr>"
    if "validatePhoto img [d] = Some r" for r
    using that by (auto simp: validatePhoto_single faceData_checks split: Option.bind_splits)
  show ?thesis using total attached by (simp add: ds)
next
  case False
  then show ?thesis using faceData_none_unless_single [of ds img] by simp
qed

text \<open>
  A detection whose head is far too small for check 5 still has its face data
  attached; no detection, no face data.
\<close>

theorem faceData_attached_witness:
  "length [example_detection 100] = 1 \<and>
   wf_landmarks (det_landmarks ([example_detection 100] ! 0)) \<and>
   (\<exists>r. validatePhoto example_image [example_detection 100] = Some r \<and>
        faceData r = Some \<lparr> fd_x = 300, fd_y = 200, fd_width = 300, fd_height = 100,
                            fd_landmarks = example_landmarks 0 \<rparr>) \<and>
   (\<exists>r. validatePhoto example_image [] = Some r \<and> faceData r = None)"
  using faceData_attached [of "[example_detection 100]" example_image]
        faceData_attached [of "[]" example_image]
  by (auto simp: example_detection_def wf_example_landmarks validatePhoto_def Let_def)

text \<open>
  C5. With exactly one detection of a well-formed face in an image of positive height,
  the report has a \<open>headSize\<close> check, and it passes exactly when
  \<open>1/2 \<le> box.height / image.height \<le> 3/4\<close>, both ends included.
\<close>

theorem headSize_interval:
  assumes "wf_landmarks (det_landmarks d)" and "0 < img_height img"
  shows "\<exists>r c. validatePhoto img [d] = Some r \<and>
           map_of (checks r) ''headSize'' = Some c \<and>
           passed c = (1 / 2 \<le> box_height (det_box d) / real (img_height img) \<and>
                       box_height (det_box d) / real (img_height img) \<le> 3 / 4)"
proof -
  obtain a e n where *: "calculateFaceAngles (det_landmarks d) = Some a"
      "checkEyesVisible (det_landmarks d) = Some e"
      "checkNeutralExpression (det_landmarks d) = Some n"
    using wf_angles wf_eyes wf_expression assms(1) by blast
  show ?thesis
    using headSize_check_headSize [of "det_box d" img] headSize_ratio [OF assms(2)]
    by (auto simp: validatePhoto_single * headSize_check_glasses headSize_check_expression
          simp del: js_lt.simps js_div.simps)
qed

text \<open>
  In an image of height 1000, heads of 500 and 750 pass, heads of 490 and 760 fail.
\<close>

theorem headSize_interval_witness:
  "wf_landmarks (det_landmarks (example_detection 500)) \<and> 0 < img_height example_image \<and>
   (\<exists>r c. validatePhoto example_image [example_detection 500] = Some r \<and>
          map_of (checks r) ''headSize'' = Some c \<and> passed c) \<and>
   (\<exists>r c. validatePhoto example_image [example_detection 750] = Some r \<and>
          map_of (checks r) ''headSize'' = Some c \<and> passed c) \<and>
   (\<exists>r c. validatePhoto example_image [example_detection 490] = Some r \<and>
          map_of (checks r) ''headSize'' = Some c \<and> \<not> passed c) \<and>
   (\<exists>r c. validatePhoto example_image [example_detection 760] = Some r \<and>
          map_of (checks r) ''headSize'' = Some c \<and> \<not> passed c)"
  using headSize_interval [of "example_detection 500" example_image]
        headSize_interval [of "example_detection 750" example_image]
        headSize_interval [of "example_detection 490" example_image]
        headSize_interval [of "example_detection 760" example_image]
  by (simp add: example_detection_def wf_example_landmarks example_image_def)

section \<open>Geometry of the landmarks\<close>

subsection \<open>Roll\<close>







subsection \<open>Rounding to doubles\<close>

lemma ilog2_bounds:
  "1 \<le> n \<Longrightarrow> 0 \<le> ilog2 n \<and> 2 ^ nat (ilog2 n) \<le> n \<and> n < 2 * 2 ^ nat (ilog2 n)"
proof (induction n rule: ilog2.induct)
  case (1 n)
  show ?case
  proof (cases "n < 2")
    case True
    with "1.prems" have "n = 1" by simp
    then show ?thesis by (simp add: ilog2.simps)
  next
    case False
    then have m: "1 \<le> n div 2" by simp
    from "1.IH" [OF False m]
    have k: "0 \<le> ilog2 (n div 2)" and lo: "2 ^ nat (ilog2 (n div 2)) \<le> n div 2"
      and hi: "n div 2 < 2 * 2 ^ nat (ilog2 (n div 2))" by simp_all
    have eq: "ilog2 n = ilog2 (n div 2) + 1"
      using False by (subst ilog2.simps) simp
    have p: "(2::int) ^ nat (ilog2 (n div 2) + 1) = 2 * 2 ^ nat (ilog2 (n div 2))"
      using k by (simp add: nat_add_distrib)
    have "2 * (n div 2) \<le> n" and "n < 2 * (n div 2) + 2" by simp_all
    with lo hi k show ?thesis unfolding eq p by linarith
  qed
qed

lemma expo_bounds:
  assumes "0 < x"
  shows "2 powi expo x \<le> x \<and> x < 2 powi (expo x + 1)"
proof (cases "1 \<le> x")
  case True
  let ?n = "\<lfloor>x\<rfloor>"
  have n: "1 \<le> ?n" using True by simp
  from ilog2_bounds [OF n]
  have k: "0 \<le> ilog2 ?n" and lo: "2 ^ nat (ilog2 ?n) \<le> ?n"
    and hi: "?n < 2 * 2 ^ nat (ilog2 ?n)" by simp_all
  have e: "expo x = ilog2 ?n" using True by (simp add: expo_def)
  have p0: "(2::real) powi ilog2 ?n = 2 ^ nat (ilog2 ?n)"
    using k by (simp add: power_int_def)
  have p1: "(2::real) powi (ilog2 ?n + 1) = 2 * 2 ^ nat (ilog2 ?n)"
    using k by (simp add: power_int_def nat_add_distrib)
  have "real_of_int (2 ^ nat (ilog2 ?n)) \<le> real_of_int ?n"
    using lo by (simp only: of_int_le_iff)
  also have "\<dots> \<le> x" by (rule of_int_floor_le)
  finally have a: "2 ^ nat (ilog2 ?n) \<le> x" by simp
  have "?n + 1 \<le> 2 * 2 ^ nat (ilog2 ?n)" using hi by simp
  then have "real_of_int (?n + 1) \<le> real_of_int (2 * 2 ^ nat (ilog2 ?n))"
    by (simp only: of_int_le_iff)
  then have "real_of_int ?n + 1 \<le> 2 * 2 ^ nat (ilog2 ?n)" by simp
  moreover have "x < real_of_int ?n + 1" by linarith
  ultimately have b: "x < 2 * 2 ^ nat (ilog2 ?n)" by linarith
  show ?thesis unfolding e p0 p1 using a b by simp
next
  case False
  let ?y = "1 / x"
  let ?n = "\<lceil>?y\<rceil> - 1"
  have y: "1 < ?y" using False assms by simp
  then have n: "1 \<le> ?n" by linarith
  from ilog2_bounds [OF n]
  have k: "0 \<le> ilog2 ?n" and lo: "2 ^ nat (ilog2 ?n) \<le> ?n"
    and hi: "?n < 2 * 2 ^ nat (ilog2 ?n)" by simp_all
  have e: "expo x = - ilog2 ?n - 1" using False by (simp add: expo_def)
  have p0: "(2::real) powi (- ilog2 ?n - 1) = 1 / (2 * 2 ^ nat (ilog2 ?n))"
    using k by (simp add: power_int_def nat_add_distrib field_simps)
  have p1: "(2::real) powi (- ilog2 ?n - 1 + 1) = 1 / 2 ^ nat (ilog2 ?n)"
    using k by (simp add: power_int_def field_simps)
  have "real_of_int (?n + 1) \<le> real_of_int (2 * 2 ^ nat (ilog2 ?n))"
    using hi by (simp only: of_int_le_iff)
  then have "real_of_int ?n + 1 \<le> 2 * 2 ^ nat (ilog2 ?n)" by simp
  moreover have "?y \<le> real_of_int ?n + 1" by linarith
  ultimately have "?y \<le> 2 * 2 ^ nat (ilog2 ?n)" by linarith
  then have a: "1 / (2 * 2 ^ nat (ilog2 ?n)) \<le> x"
    using assms by (simp add: field_simps)
  have "real_of_int (2 ^ nat (ilog2 ?n)) \<le> real_of_int ?n"
    using lo by (simp only: of_int_le_iff)
  then have "2 ^ nat (ilog2 ?n) \<le> real_of_int ?n" by simp
  moreover have "real_of_int ?n < ?y" by linarith
  ultimately have "2 ^ nat (ilog2 ?n) < ?y" by linarith
  then have b: "x < 1 / 2 ^ nat (ilog2 ?n)"
    using assms by (simp add: field_simps)
  show ?thesis unfolding e p0 p1 using a b by simp
qed

lemma expo_unique:
  assumes "0 < x" and lo: "2 powi e \<le> x" and hi: "x < 2 powi (e + 1)"
  shows "expo x = e"
proof -
  from expo_bounds [OF assms(1)]
  have lo': "2 powi expo x \<le> x" and hi': "x < 2 powi (expo x + 1)" by simp_all
  have "e < expo x + 1"
  proof (rule ccontr)
    assume "\<not> e < expo x + 1"
    then have "(2::real) powi (expo x + 1) \<le> 2 powi e"
      by (intro power_int_increasing) simp_all
    with lo hi' show False by linarith
  qed
  moreover have "expo x < e + 1"
  proof (rule ccontr)
    assume "\<not> expo x < e + 1"
    then have "(2::real) powi (e + 1) \<le> 2 powi expo x"
      by (intro power_int_increasing) simp_all
    with lo' hi show False by linarith
  qed
  ultimately show ?thesis by simp
qed

lemma expo_scale:
  assumes "0 < x"
  shows "expo (2 powi n * x) = expo x + n"
proof (rule expo_unique)
  from expo_bounds [OF assms]
  have lo: "2 powi expo x \<le> x" and hi: "x < 2 powi (expo x + 1)" by simp_all
  show "0 < 2 powi n * x" using assms by simp
  have "(2::real) powi (expo x + n) = 2 powi n * 2 powi expo x"
    by (simp add: power_int_add)
  then show "2 powi (expo x + n) \<le> 2 powi n * x" using lo by simp
  have "(2::real) powi (expo x + n + 1) = 2 powi n * 2 powi (expo x + 1)"
    by (simp add: power_int_add)
  then show "2 powi n * x < 2 powi (expo x + n + 1)" using hi by simp
qed

lemma expo_normal:
  assumes "2 powi (- 1022) \<le> a"
  shows "- 1022 \<le> expo a"
proof -
  have pos: "0 < a" using assms zero_less_power_int [of "2::real" "- 1022"] by linarith
  from expo_bounds [OF pos] have hi: "a < 2 powi (expo a + 1)" by simp
  show ?thesis
  proof (rule ccontr)
    assume "\<not> - 1022 \<le> expo a"
    then have "(2::real) powi (expo a + 1) \<le> 2 powi (- 1022)"
      by (intro power_int_increasing) simp_all
    with hi assms show False by linarith
  qed
qed

lemma round_mag_scale:
  assumes a: "2 powi (- 1022) \<le> a" and ka: "2 powi (- 1022) \<le> 2 powi n * a"
  shows "round_mag (2 powi n * a) = 2 powi n * round_mag a"
proof -
  have pos: "0 < a" using a zero_less_power_int [of "2::real" "- 1022"] by linarith
  have e1: "- 1022 \<le> expo a" using a by (rule expo_normal)
  have "- 1022 \<le> expo (2 powi n * a)" using ka by (rule expo_normal)
  then have e2: "- 1022 \<le> expo a + n" by (simp add: expo_scale [OF pos])
  have m1: "max (expo a - 52) (- 1074) = expo a - 52" using e1 by simp
  have m2: "max (expo a + n - 52) (- 1074) = expo a - 52 + n" using e2 by simp
  have p: "(2::real) powi (expo a - 52 + n) = 2 powi n * 2 powi (expo a - 52)"
    by (simp add: power_int_add)
  show ?thesis
    by (simp add: round_mag_def expo_scale [OF pos] m1 m2 p Let_def)
qed

lemma rne_near:
  assumes "\<bar>y - real_of_int m\<bar> < 1 / 2"
  shows "rne y = m"
proof (cases "real_of_int m \<le> y")
  case True
  with assms have "\<lfloor>y\<rfloor> = m" by linarith
  with assms True show ?thesis by (simp add: rne_def Let_def)
next
  case False
  with assms have f: "\<lfloor>y\<rfloor> = m - 1" by linarith
  have "1 / 2 < y - real_of_int (m - 1)" using assms False by simp
  with f show ?thesis by (simp add: rne_def Let_def)
qed

lemma fl_eval:
  assumes lo: "2 powi E \<le> a" and hi: "a < 2 powi (E + 1)"
    and E: "- 1022 \<le> E" "E \<le> 1022"
    and m: "\<bar>a / 2 powi (E - 52) - real_of_int m\<bar> < 1 / 2"
  shows "fl a = Fin (real_of_int m * 2 powi (E - 52))"
proof -
  have pos: "0 < a" using lo zero_less_power_int [of "2::real" E] by linarith
  have e: "expo a = E" using pos lo hi by (rule expo_unique)
  have mx: "max (E - 52) (- 1074) = E - 52" using E by simp
  have r: "round_mag a = real_of_int m * 2 powi (E - 52)"
    by (simp add: round_mag_def e mx rne_near [OF m])
  have "(2::real) powi (53 + (E - 52)) = 2 powi 53 * 2 powi (E - 52)"
    by (rule power_int_add) simp
  then have p: "(2::real) powi (E + 1) = 2 ^ 53 * 2 powi (E - 52)"
    by (simp add: add.commute)
  have "a / 2 powi (E - 52) < 2 ^ 53"
    using hi unfolding p by (simp add: field_simps)
  with m have "real_of_int m < 2 ^ 53 + 1" by linarith
  then have "m \<le> 2 ^ 53" by simp
  then have "real_of_int m \<le> real_of_int (2 ^ 53)" by (simp only: of_int_le_iff)
  then have "real_of_int m \<le> 2 ^ 53" by simp
  then have "real_of_int m * 2 powi (E - 52) \<le> 2 ^ 53 * 2 powi (E - 52)"
    by (intro mult_right_mono) simp_all
  also have "\<dots> = 2 powi (E + 1)" by (simp add: p)
  also have "\<dots> \<le> 2 powi 1023" using E by (intro power_int_increasing) simp_all
  also have "\<dots> < (2::real) powi 1024" by (intro power_int_strict_increasing) simp_all
  finally have "\<not> 2 powi 1024 \<le> round_mag \<bar>a\<bar>" using pos r by simp
  with pos r show ?thesis by (simp add: fl_def)
qed

lemma fl_neg: "fl (- x) = js_neg (fl x)"
  by (simp add: fl_def sgn_minus)


lemma rne_int: "rne (real_of_int m) = m"
  by (rule rne_near) simp

lemma fl_double: "is_double x \<Longrightarrow> fl x = Fin x"
  by (simp add: is_double_def)

lemma is_double_dyadic:
  assumes m: "\<bar>m\<bar> < 2 ^ 53" and e: "- 1074 \<le> e" "e \<le> 971"
  shows "is_double (real_of_int m * 2 powi e)"
proof (cases "m = 0")
  case True
  then show ?thesis by (simp add: is_double_def fl_def)
next
  case False
  let ?x = "real_of_int m * 2 powi e"
  let ?a = "real_of_int \<bar>m\<bar> * 2 powi e"
  have ax: "\<bar>?x\<bar> = ?a" by (simp add: abs_mult)
  have pos: "0 < ?a" using False by simp
  from expo_bounds [OF pos]
  have lo: "2 powi expo ?a \<le> ?a" and hi: "?a < 2 powi (expo ?a + 1)" by simp_all
  have "real_of_int \<bar>m\<bar> < real_of_int (2 ^ 53)" using m by (simp only: of_int_less_iff)
  then have "real_of_int \<bar>m\<bar> < 2 powi 53" by simp
  then have "?a < 2 powi 53 * 2 powi e"
    by (intro mult_strict_right_mono) simp_all
  also have "\<dots> = 2 powi (53 + e)" by (rule power_int_add [symmetric]) simp
  finally have top: "?a < 2 powi (53 + e)" .
  have "expo ?a < 53 + e"
  proof (rule ccontr)
    assume "\<not> expo ?a < 53 + e"
    then have "(2::real) powi (53 + e) \<le> 2 powi expo ?a"
      by (intro power_int_increasing) simp_all
    with lo top show False by linarith
  qed
  define e' where "e' = max (expo ?a - 52) (- 1074)"
  have e': "e' \<le> e" using \<open>expo ?a < 53 + e\<close> e by (simp add: e'_def)
  have "(2::real) powi e = 2 powi (e - e') * 2 powi e'"
    by (simp flip: power_int_add)
  also have "(2::real) powi (e - e') = 2 ^ nat (e - e')"
    using e' by (simp add: power_int_def)
  finally have split: "(2::real) powi e = 2 ^ nat (e - e') * 2 powi e'" .
  have "?a / 2 powi e' = real_of_int (\<bar>m\<bar> * 2 ^ nat (e - e'))"
    by (simp add: split)
  then have "round_mag ?a = real_of_int (\<bar>m\<bar> * 2 ^ nat (e - e')) * 2 powi e'"
    by (simp only: round_mag_def Let_def e'_def [symmetric] rne_int)
  also have "\<dots> = ?a" by (simp add: split)
  finally have r: "round_mag ?a = ?a" .
  have "(2::real) powi (53 + e) \<le> 2 powi 1024"
    using e by (intro power_int_increasing) simp_all
  with top have "\<not> 2 powi 1024 \<le> ?a" by linarith
  with False r have "fl ?x = Fin (sgn ?x * ?a)"
    by (simp add: fl_def ax)
  also have "sgn ?x * ?a = ?x"
    by (simp add: sgn_mult abs_mult flip: ax) (simp add: mult_sgn_abs mult.assoc flip: abs_mult)
  finally show ?thesis by (simp add: is_double_def)
qed

lemma is_double_numeral: "(numeral n :: int) < 2 ^ 53 \<Longrightarrow> is_double (numeral n)"
  using is_double_dyadic [of "numeral n" 0] by simp

lemma is_double_half: "(numeral n :: int) < 2 ^ 53 \<Longrightarrow> is_double (numeral n / 2)"
  using is_double_dyadic [of "numeral n" "- 1"] by simp

lemma is_double_zero: "is_double 0"
  by (simp add: is_double_def fl_def)

lemma is_double_neg: "is_double (- x) = is_double x"
  by (cases "fl x") (auto simp: is_double_def fl_neg)

subsection \<open>Eye aspect ratio\<close>

lemma rne_nonneg: "0 \<le> y \<Longrightarrow> 0 \<le> rne y"
  by (simp add: rne_def Let_def)

lemma round_mag_nonneg: "0 \<le> a \<Longrightarrow> 0 \<le> round_mag a"
  by (simp add: round_mag_def Let_def rne_nonneg)

lemma abs_fl_normal:
  assumes "rounds_normally d"
  shows "js_abs (fl d) = Fin (round_mag \<bar>d\<bar>)"
proof -
  have "0 < \<bar>d\<bar>"
    using assms zero_less_power_int [of "2::real" "- 1022"]
    unfolding rounds_normally_def by linarith
  then have d: "d \<noteq> 0" by simp
  have fin: "is_Fin (fl d)" using assms by (simp add: rounds_normally_def)
  have "\<not> 2 powi 1024 \<le> round_mag \<bar>d\<bar>"
  proof
    assume "2 powi 1024 \<le> round_mag \<bar>d\<bar>"
    with d have "fl d = PosInf \<or> fl d = NegInf" by (simp add: fl_def)
    with fin show False by auto
  qed
  with d have "fl d = Fin (sgn d * round_mag \<bar>d\<bar>)" by (simp add: fl_def)
  moreover have "\<bar>sgn d * round_mag \<bar>d\<bar>\<bar> = round_mag \<bar>d\<bar>"
    using d round_mag_nonneg [of "\<bar>d\<bar>"] by (simp add: abs_mult)
  ultimately show ?thesis by simp
qed

lemma abs_fl_scale:
  assumes "scales_exactly k n d"
  shows "\<exists>h. 0 \<le> h \<and> js_abs (fl d) = Fin h \<and> js_abs (fl (k * d)) = Fin (\<bar>k\<bar> * h)"
proof -
  consider "d = 0"
    | "d \<noteq> 0" "k = 2 powi n" "rounds_normally d" "rounds_normally (k * d)"
    | "is_double d" "is_double (k * d)"
    using assms unfolding scales_exactly_def by blast
  then show ?thesis
  proof cases
    case 1
    then show ?thesis by (simp add: fl_def)
  next
    case 2
    have kpos: "\<bar>k\<bar> = 2 powi n" using 2(2) by simp
    have kd: "\<bar>k * d\<bar> = 2 powi n * \<bar>d\<bar>"
      using 2(2) by (simp add: abs_mult)
    have "round_mag (2 powi n * \<bar>d\<bar>) = 2 powi n * round_mag \<bar>d\<bar>"
      using 2(3,4) by (intro round_mag_scale) (simp_all add: rounds_normally_def kd)
    then have "round_mag \<bar>k * d\<bar> = \<bar>k\<bar> * round_mag \<bar>d\<bar>"
      by (simp only: kd kpos)
    then have "js_abs (fl (k * d)) = Fin (\<bar>k\<bar> * round_mag \<bar>d\<bar>)"
      by (simp only: abs_fl_normal [OF 2(4)])
    with abs_fl_normal [OF 2(3)] round_mag_nonneg [of "\<bar>d\<bar>"] show ?thesis by simp
  next
    case 3
    then have "js_abs (fl d) = Fin \<bar>d\<bar>" and "js_abs (fl (k * d)) = Fin (\<bar>k\<bar> * \<bar>d\<bar>)"
      by (simp_all add: is_double_def abs_mult)
    then show ?thesis by simp
  qed
qed

lemma js_div64_scale:
  assumes "0 \<le> h" and "0 < c"
  shows "js_div64 (Fin (c * h)) (Fin (c * w)) = js_div64 (Fin h) (Fin w)"
proof -
  have "js_div (Fin (c * h)) (Fin (c * w)) = js_div (Fin h) (Fin w)"
    using assms by (auto simp: zero_less_mult_iff mult_less_0_iff)
  then show ?thesis by (simp add: js_div64_def)
qed

lemma eyeAspectRatio_six:
  assumes "length eye = 6"
  shows "eyeAspectRatio eye =
     Some (js_div64 (js_abs (fl (pt_y (eye ! 1) - pt_y (eye ! 5))))
                    (js_abs (fl (pt_x (eye ! 3) - pt_x (eye ! 0)))))"
  using assms by (simp add: eyeAspectRatio_def elem_at_def js_sub64_def js_sub_def js_round_def)

lemma eyeAspectRatio_scale:
  assumes len: "length eye = 6" and k: "k \<noteq> 0" and ex: "eye_scales_exactly k n eye"
  shows "eyeAspectRatio (map (scale_point k) eye) = eyeAspectRatio eye"
proof -
  let ?dy = "pt_y (eye ! 1) - pt_y (eye ! 5)" and ?dx = "pt_x (eye ! 3) - pt_x (eye ! 0)"
  from ex have "scales_exactly k n ?dy" and "scales_exactly k n ?dx"
    by (simp_all add: eye_scales_exactly_def)
  then obtain h w where h: "0 \<le> h" "js_abs (fl ?dy) = Fin h" "js_abs (fl (k * ?dy)) = Fin (\<bar>k\<bar> * h)"
    and w: "js_abs (fl ?dx) = Fin w" "js_abs (fl (k * ?dx)) = Fin (\<bar>k\<bar> * w)"
    using abs_fl_scale by blast
  have kpos: "0 < \<bar>k\<bar>" using k by simp
  have "eyeAspectRatio (map (scale_point k) eye) =
      Some (js_div64 (js_abs (fl (k * ?dy))) (js_abs (fl (k * ?dx))))"
    using len by (simp add: eyeAspectRatio_six scale_point_def right_diff_distrib)
  also have "\<dots> = Some (js_div64 (js_abs (fl ?dy)) (js_abs (fl ?dx)))"
    by (simp only: h w js_div64_scale [OF h(1) kpos])
  also have "\<dots> = eyeAspectRatio eye"
    using len by (simp add: eyeAspectRatio_six)
  finally show ?thesis .
qed

lemma is_double_div_pow2:
  assumes "\<bar>m\<bar> < 2 ^ 53" and "q \<le> 1074"
  shows "is_double (real_of_int m / 2 ^ q)"
proof -
  have "real_of_int m / 2 ^ q = real_of_int m * 2 powi (- int q)"
    by (simp add: power_int_minus field_simps)
  moreover have "is_double (real_of_int m * 2 powi (- int q))"
    using assms by (intro is_double_dyadic) simp_all
  ultimately show ?thesis by simp
qed

lemma double_tiny: "is_double (17 / 2 ^ 56)" "is_double (51 / 2 ^ 56)"
  using is_double_div_pow2 [of 17 56] is_double_div_pow2 [of 51 56] by simp_all

lemmas double_simps = is_double_numeral is_double_half is_double_zero is_double_neg

lemma double_rounding_landmarks:
  "double_landmarks rounding_landmarks" "double_landmarks (scale_landmarks 3 rounding_landmarks)"
  using double_tiny
  by (simp_all add: double_landmarks_def double_point_def rounding_landmarks_def rounding_eye_def
        example_eye_def scale_landmarks_def scale_point_def list_all_iff double_simps)

lemma ear_rounding_eye:
  "eyeAspectRatio rounding_eye = Some (Fin (5404319552844596 / 2 ^ 55))"
proof -
  have h: "fl (3 + 17 / 2 ^ 56) = Fin (3 + 2 / 2 ^ 52)"
    using fl_eval [of 1 "3 + 17 / 2 ^ 56" "3 * 2 ^ 51 + 1"] by simp
  have w: "fl 20 = Fin 20"
    by (rule fl_double) (simp add: double_simps)
  have q: "fl ((3 + 2 / 2 ^ 52) / 20) = Fin (5404319552844596 / 2 ^ 55)"
    using fl_eval [of "- 3" "(3 + 2 / 2 ^ 52) / 20" 5404319552844596] by simp
  show ?thesis
    using h w q
    by (simp add: eyeAspectRatio_six rounding_eye_def js_div64_def js_round_def)
qed

lemma ear_rounding_eye_scaled:
  "eyeAspectRatio (map (scale_point 3) rounding_eye) = Some (Fin (5404319552844595 / 2 ^ 55))"
proof -
  have h: "fl (9 + 51 / 2 ^ 56) = Fin 9"
    using fl_eval [of 3 "9 + 51 / 2 ^ 56" "9 * 2 ^ 49"] by simp
  have w: "fl 60 = Fin 60"
    by (rule fl_double) (simp add: double_simps)
  have q: "fl (9 / 60) = Fin (5404319552844595 / 2 ^ 55)"
    using fl_eval [of "- 3" "9 / 60" 5404319552844595] by simp
  show ?thesis
    using h w q
    by (simp add: eyeAspectRatio_six rounding_eye_def scale_point_def js_div64_def js_round_def)
qed

lemma fl_three_tenths: "fl (3 / 10) = Fin (5404319552844595 / 2 ^ 54)"
  using fl_eval [of "- 2" "3 / 10" 5404319552844595] by simp

lemma ear_example_eye:
  "eyeAspectRatio (example_eye 500 350) = Some (Fin (5404319552844595 / 2 ^ 54))"
  "eyeAspectRatio (map (scale_point 3) (example_eye 500 350)) = Some (Fin (5404319552844595 / 2 ^ 54))"
proof -
  have d: "fl 9 = Fin 9" "fl 30 = Fin 30" "fl 27 = Fin 27" "fl 90 = Fin 90"
    by (rule fl_double, simp add: double_simps)+
  show "eyeAspectRatio (example_eye 500 350) = Some (Fin (5404319552844595 / 2 ^ 54))"
    using d fl_three_tenths
    by (simp add: eyeAspectRatio_six example_eye_def js_div64_def js_round_def fl_neg)
  show "eyeAspectRatio (map (scale_point 3) (example_eye 500 350)) = Some (Fin (5404319552844595 / 2 ^ 54))"
    using d fl_three_tenths
    by (simp add: eyeAspectRatio_six example_eye_def scale_point_def js_div64_def js_round_def fl_neg)
qed

lemma min_ear: "fl 0.15 = Fin (5404319552844595 / 2 ^ 55)"
  using fl_eval [of "- 3" "0.15" 5404319552844595] by simp


text \<open>
  C8, counterexample. Scaling by 3 is not harmless. On \<open>rounding_landmarks\<close> every
  coordinate and its triple are doubles and the horizontal span of the left eye is 20. The left eye's ratio is
  \<open>0.15000000000000002\<close>, the double above the double nearest to 0.15, and the eyes count
  as visible; after scaling by 3 the difference \<open>9 + 51 * 2^-56\<close> rounds to 9, the
  ratio is the double nearest to 0.15 itself, and the eyes count as not visible.
\<close>

theorem ear_scale_counterexample:
  "wf_landmarks rounding_landmarks \<and>
   double_landmarks rounding_landmarks \<and>
   double_landmarks (scale_landmarks 3 rounding_landmarks) \<and>
   pt_x (rounding_eye ! 3) - pt_x (rounding_eye ! 0) = 20 \<and>
   eyeAspectRatio (getLeftEye rounding_landmarks) = Some (Fin (5404319552844596 / 2 ^ 55)) \<and>
   eyeAspectRatio (map (scale_point 3) (getLeftEye rounding_landmarks))
     = Some (Fin (5404319552844595 / 2 ^ 55)) \<and>
   checkEyesVisible rounding_landmarks = Some True \<and>
   checkEyesVisible (scale_landmarks 3 rounding_landmarks) = Some False"
proof -
  have wf: "wf_landmarks rounding_landmarks"
    by (simp add: wf_landmarks_def rounding_landmarks_def rounding_eye_def example_eye_def)
  have span: "pt_x (rounding_eye ! 3) - pt_x (rounding_eye ! 0) = 20"
    by (simp add: rounding_eye_def)
  have v: "checkEyesVisible rounding_landmarks = Some True"
    using min_ear
    by (simp add: checkEyesVisible_def rounding_landmarks_def ear_rounding_eye ear_example_eye
          js_gt_def)
  have v3: "checkEyesVisible (scale_landmarks 3 rounding_landmarks) = Some False"
    using min_ear
    by (simp add: checkEyesVisible_def rounding_landmarks_def scale_landmarks_def
          ear_rounding_eye_scaled ear_example_eye js_gt_def)
  show ?thesis
    using wf double_rounding_landmarks span v v3
    by (simp add: rounding_landmarks_def ear_rounding_eye ear_rounding_eye_scaled)
qed


text \<open>
  C8, amended. Let the coordinates of the landmarks and of the landmarks scaled by
  \<open>k \<noteq> 0\<close> be doubles. The aspect ratio of each eye and the verdict of
  \<open>checkEyesVisible\<close> are unchanged by the scaling, provided that each of the differences
  \<open>p1.y - p5.y\<close> and \<open>p3.x - p0.x\<close> of each eye is scaled without a rounding error: it is
  zero, or it and its scaled value are doubles, or \<open>k\<close> is a power of two and neither it
  nor its scaled value overflows or falls below \<open>2^-1022\<close> on rounding. The ratio of an
  eye is \<open>|p1.y - p5.y| / |p3.x - p0.x|\<close> with the subtractions and the division
  rounded, and the verdict is that both ratios exceed the double nearest to 0.15.
\<close>

theorem ear_scale_exact:
  assumes "k \<noteq> 0" and "wf_landmarks lm"
    and "double_landmarks lm" and "double_landmarks (scale_landmarks k lm)"
    and "eye_scales_exactly k n (getLeftEye lm)" and "eye_scales_exactly k n (getRightEye lm)"
  shows "eyeAspectRatio (map (scale_point k) (getLeftEye lm)) = eyeAspectRatio (getLeftEye lm) \<and>
     eyeAspectRatio (map (scale_point k) (getRightEye lm)) = eyeAspectRatio (getRightEye lm) \<and>
     checkEyesVisible (scale_landmarks k lm) = checkEyesVisible lm \<and>
     (let ear = (\<lambda>eye. js_div64 (js_abs (fl (pt_y (eye ! 1) - pt_y (eye ! 5))))
                                 (js_abs (fl (pt_x (eye ! 3) - pt_x (eye ! 0)))))
      in eyeAspectRatio (getLeftEye lm) = Some (ear (getLeftEye lm)) \<and>
         eyeAspectRatio (getRightEye lm) = Some (ear (getRightEye lm)) \<and>
         checkEyesVisible lm =
           Some (js_gt (ear (getLeftEye lm)) (fl 0.15) \<and> js_gt (ear (getRightEye lm)) (fl 0.15)))"
proof -
  have len: "length (getLeftEye lm) = 6" "length (getRightEye lm) = 6"
    using assms(2) by (simp_all add: wf_landmarks_def)
  have l: "eyeAspectRatio (map (scale_point k) (getLeftEye lm)) = eyeAspectRatio (getLeftEye lm)"
    using len(1) assms(1,5) by (rule eyeAspectRatio_scale)
  have r: "eyeAspectRatio (map (scale_point k) (getRightEye lm)) = eyeAspectRatio (getRightEye lm)"
    using len(2) assms(1,6) by (rule eyeAspectRatio_scale)
  have v: "checkEyesVisible (scale_landmarks k lm) = checkEyesVisible lm"
    by (simp add: checkEyesVisible_def scale_landmarks_def l r)
  show ?thesis
    using l r v by (simp add: Let_def checkEyesVisible_def eyeAspectRatio_six len)
qed

text \<open>
  Two instances. The landmarks of the counterexample scaled by \<open>2\<close>: the left eye's
  vertical difference is not a double, but the factor is a power of two, and the ratio
  stays \<open>0.15000000000000002\<close>. The example face scaled by \<open>3\<close>: all differences and
  their triples are doubles, and the verdict stays.
\<close>

theorem ear_scale_exact_witness:
  "(2::real) \<noteq> 0 \<and> wf_landmarks rounding_landmarks \<and>
   double_landmarks rounding_landmarks \<and>
   double_landmarks (scale_landmarks 2 rounding_landmarks) \<and>
   eye_scales_exactly 2 1 (getLeftEye rounding_landmarks) \<and>
   eye_scales_exactly 2 1 (getRightEye rounding_landmarks) \<and>
   \<not> is_double (pt_y (rounding_eye ! 1) - pt_y (rounding_eye ! 5)) \<and>
   eyeAspectRatio (map (scale_point 2) (getLeftEye rounding_landmarks))
     = Some (Fin (5404319552844596 / 2 ^ 55)) \<and>
   checkEyesVisible (scale_landmarks 2 rounding_landmarks) = Some True \<and>
   (3::real) \<noteq> 0 \<and> wf_landmarks (example_landmarks 0) \<and>
   double_landmarks (example_landmarks 0) \<and>
   double_landmarks (scale_landmarks 3 (example_landmarks 0)) \<and>
   eye_scales_exactly 3 0 (getLeftEye (example_landmarks 0)) \<and>
   eye_scales_exactly 3 0 (getRightEye (example_landmarks 0)) \<and>
   checkEyesVisible (scale_landmarks 3 (example_landmarks 0))
     = checkEyesVisible (example_landmarks 0)"
proof -
  have k: "(2::real) \<noteq> 0" "(3::real) \<noteq> 0" by simp_all
  have wf: "wf_landmarks rounding_landmarks"
    by (simp add: wf_landmarks_def rounding_landmarks_def rounding_eye_def example_eye_def)
  have f: "fl (3 + 17 / 2 ^ 56) = Fin (3 + 2 / 2 ^ 52)"
    using fl_eval [of 1 "3 + 17 / 2 ^ 56" "3 * 2 ^ 51 + 1"] by simp
  have f2: "fl (6 + 34 / 2 ^ 56) = Fin (6 + 4 / 2 ^ 52)"
    using fl_eval [of 2 "6 + 34 / 2 ^ 56" "3 * 2 ^ 51 + 1"] by simp
  have d: "fl 20 = Fin 20" "fl 40 = Fin 40" "fl 9 = Fin 9" "fl 18 = Fin 18"
      "fl 30 = Fin 30" "fl 60 = Fin 60"
    by (rule fl_double, simp add: double_simps)+
  have tiny: "is_double (17 / 2 ^ 56)" "is_double (34 / 2 ^ 56)"
    using is_double_div_pow2 [of 17 56] is_double_div_pow2 [of 34 56] by simp_all
  have dl: "double_landmarks rounding_landmarks"
    by (rule double_rounding_landmarks)
  have dl2: "double_landmarks (scale_landmarks 2 rounding_landmarks)"
    using tiny
    by (simp add: double_landmarks_def double_point_def rounding_landmarks_def rounding_eye_def
          example_eye_def scale_landmarks_def scale_point_def list_all_iff double_simps)
  have l: "eye_scales_exactly 2 1 (getLeftEye rounding_landmarks)"
    using f f2 d
    by (simp add: eye_scales_exactly_def scales_exactly_def rounds_normally_def
          rounding_landmarks_def rounding_eye_def)
  have r: "eye_scales_exactly 2 1 (getRightEye rounding_landmarks)"
    using d
    by (simp add: eye_scales_exactly_def scales_exactly_def rounds_normally_def
          rounding_landmarks_def example_eye_def fl_neg)
  have nd: "\<not> is_double (pt_y (rounding_eye ! 1) - pt_y (rounding_eye ! 5))"
    using f by (simp add: is_double_def rounding_eye_def)
  have v: "checkEyesVisible rounding_landmarks = Some True"
    using min_ear
    by (simp add: checkEyesVisible_def rounding_landmarks_def ear_rounding_eye ear_example_eye
          js_gt_def)
  have e: "eyeAspectRatio (getLeftEye rounding_landmarks) = Some (Fin (5404319552844596 / 2 ^ 55))"
    by (simp add: rounding_landmarks_def ear_rounding_eye)
  have wf3: "wf_landmarks (example_landmarks 0)"
    by (rule wf_example_landmarks)
  have dl3: "double_landmarks (example_landmarks 0)"
      "double_landmarks (scale_landmarks 3 (example_landmarks 0))"
    by (simp_all add: double_landmarks_def double_point_def example_landmarks_def
          example_eye_def example_mouth_def scale_landmarks_def scale_point_def upt_rec
          double_simps)
  have ex3: "eye_scales_exactly 3 0 (getLeftEye (example_landmarks 0))"
      "eye_scales_exactly 3 0 (getRightEye (example_landmarks 0))"
    by (simp_all add: eye_scales_exactly_def scales_exactly_def example_landmarks_def
          example_eye_def double_simps)
  from ear_scale_exact [OF k(1) wf dl dl2 l r] ear_scale_exact [OF k(2) wf3 dl3 ex3]
    k wf dl dl2 l r nd v e wf3 dl3 ex3
  show ?thesis by simp
qed

section \<open>Optimization\<close>

subsection \<open>Sharpening\<close>

lemma fold_nth_unchanged:
  assumes "\<And>x s. x \<in> set xs \<Longrightarrow> f x s ! j = s ! j"
  shows "fold f xs s ! j = s ! j"
  using assms by (induction xs arbitrary: s) simp_all

text \<open>A step of the loop writes the four bytes of its own pixel only.\<close>

lemma sharpen_pixel_other:
  assumes "j < (y * w + x) * 4 \<or> (y * w + x) * 4 + 3 < j"
  shows "sharpen_pixel d w y x out ! j = out ! j"
proof -
  have "[0..<3] = [0, 1, 2]" by (simp add: upt_rec)
  then show ?thesis
    using assms by (auto simp: sharpen_pixel_def Let_def)
qed

lemma pixel_index_distinct:
  assumes "x < w" and "x' < w" and "y * w + x = y' * w + x'"
  shows "x = x' \<and> y = (y' :: nat)"
proof -
  have "(y * w + x) div w = y" "(y * w + x) mod w = x"
       "(y' * w + x') div w = y'" "(y' * w + x') mod w = x'"
    using assms(1,2) by simp_all
  with assms(3) show ?thesis by metis
qed

lemma pixel_index_bound:
  assumes "x < w" and "y < h"
  shows "y * w + x < w * (h :: nat)"
proof -
  have "y * w + x < y * w + w" using assms(1) by simp
  also have "\<dots> = Suc y * w" by simp
  also have "\<dots> \<le> h * w" using assms(2) by (intro mult_le_mono1) simp
  finally show ?thesis by (simp add: mult.commute)
qed

text \<open>
  The output buffer starts as zeros and the loops visit interior pixels only: every
  byte of every border pixel of the output is zero, whatever the input holds there.
\<close>

lemma sharpen_border_zero:
  assumes run: "applySharpeningFilter img = Inr out"
    and x: "x < id_width img" and y: "y < id_height img"
    and border: "x = 0 \<or> x = id_width img - 1 \<or> y = 0 \<or> y = id_height img - 1"
    and c: "c < 4"
  shows "id_data out ! ((y * id_width img + x) * 4 + c) = 0"
proof -
  let ?w = "id_width img" and ?h = "id_height img" and ?d = "id_data img"
  let ?j = "(y * ?w + x) * 4 + c"
  let ?init = "replicate (?w * ?h * 4) (0 :: 8 word)"
  have pos: "?w \<noteq> 0" "?h \<noteq> 0" using x y by auto
  have out: "id_data out =
      fold (\<lambda>y0 out. fold (\<lambda>x0 out'. sharpen_pixel ?d ?w y0 x0 out') [1..<?w - 1] out)
        [1..<?h - 1] ?init"
    using run pos by (auto simp: applySharpeningFilter_def new_ImageData_def Let_def)
  have pixel: "sharpen_pixel ?d ?w y0 x0 s ! ?j = s ! ?j"
    if "y0 \<in> set [1..<?h - 1]" "x0 \<in> set [1..<?w - 1]" for y0 x0 s
  proof -
    from that have "x0 < ?w" and "(x0, y0) \<noteq> (x, y)"
      using border by auto
    with x have "y0 * ?w + x0 \<noteq> y * ?w + x"
      using pixel_index_distinct [of x0 ?w x y0 y] by auto
    with c have "?j < (y0 * ?w + x0) * 4 \<or> (y0 * ?w + x0) * 4 + 3 < ?j" by arith
    then show ?thesis by (rule sharpen_pixel_other)
  qed
  have row: "fold (\<lambda>x0 out'. sharpen_pixel ?d ?w y0 x0 out') [1..<?w - 1] s ! ?j = s ! ?j"
    if "y0 \<in> set [1..<?h - 1]" for y0 s
    by (rule fold_nth_unchanged) (rule pixel [OF that])
  have "id_data out ! ?j = ?init ! ?j"
    unfolding out by (rule fold_nth_unchanged) (rule row)
  moreover have "?j < ?w * ?h * 4"
    using pixel_index_bound [OF x y] c by arith
  ultimately show ?thesis by simp
qed

text \<open>
  The canvas of the pipeline is 354 by 472: whatever it holds, the first pixel of the
  sharpened buffer is \<open>(0, 0, 0, 0)\<close>.
\<close>

lemma sharpen_border_zero_canvas:
  assumes "id_width img = 354" and "id_height img = 472"
  shows "\<exists>out. applySharpeningFilter img = Inr out \<and>
           id_data out ! 0 = 0 \<and> id_data out ! 1 = 0 \<and>
           id_data out ! 2 = 0 \<and> id_data out ! 3 = 0"
proof -
  obtain out where run: "applySharpeningFilter img = Inr out"
    using assms by (simp add: applySharpeningFilter_def new_ImageData_def Let_def)
  have "id_data out ! c = 0" if "c < 4" for c
    using sharpen_border_zero [OF run, of 0 0 c] assms that by simp
  from this [of 0] this [of 1] this [of 2] this [of 3] run show ?thesis by simp
qed

text \<open>
  C2. The claim is that the sharpening pass leaves the outermost ring of pixels as it
  is in the input. On the example raster the pass returns the sharpened centre
  \<open>(80, 140, 255, 255)\<close> and a ring of \<open>(0, 0, 0, 0)\<close>, where the input has
  \<open>(200, 200, 200, 255)\<close>.
\<close>

theorem sharpen_border_example:
  "take 4 (id_data example_raster) = [200, 200, 200, 255] \<and>
   applySharpeningFilter example_raster =
     Inr \<lparr> id_width = 3, id_height = 3,
       id_data = [0, 0, 0, 0,  0, 0, 0, 0,  0, 0, 0, 0,
                  0, 0, 0, 0,  80, 140, 255, 255,  0, 0, 0, 0,
                  0, 0, 0, 0,  0, 0, 0, 0,  0, 0, 0, 0] \<rparr>"
  by code_simp

subsection \<open>Contrast\<close>

lemma contrast_factor_value: "contrast_factor 1.1 = Fin (- (5439 / 215))"
  by (simp add: contrast_factor_def)

lemma clamp_store_low:
  "a \<le> 0 \<Longrightarrow> ToUint8Clamp (js_max (Fin 0) (js_min (Fin 255) (Fin a))) = 0"
  by (simp add: ToUint8Clamp_def)

lemma clamp_store_high:
  "255 \<le> a \<Longrightarrow> ToUint8Clamp (js_max (Fin 0) (js_min (Fin 255) (Fin a))) = 255"
  by (simp add: ToUint8Clamp_def)

lemma contrast_channel_Fin:
  "contrast_channel (Fin f) (Fin v) =
     ToUint8Clamp (js_max (Fin 0) (js_min (Fin 255) (Fin (f * (v - 128) + 128))))"
  by (simp add: contrast_channel_def js_sub_def)

lemma contrast_high:
  assumes "134 \<le> v"
  shows "contrast_channel (Fin (- (5439 / 215))) (Fin v) = 0"
proof -
  have "- (5439 / 215) * (v - 128) + 128 \<le> 0" using assms by (simp add: field_simps)
  then show ?thesis
    unfolding contrast_channel_Fin by (rule clamp_store_low)
qed

lemma contrast_low:
  assumes "v \<le> 122"
  shows "contrast_channel (Fin (- (5439 / 215))) (Fin v) = 255"
proof -
  have "255 \<le> - (5439 / 215) * (v - 128) + 128" using assms by (simp add: field_simps)
  then show ?thesis
    unfolding contrast_channel_Fin by (rule clamp_store_high)
qed

text \<open>The values 123 and 133 are not driven to an end of the range, and 128 is fixed.\<close>

lemma contrast_interval_sharp:
  "contrast_channel (contrast_factor 1.1) (Fin 123) = 254 \<and>
   contrast_channel (contrast_factor 1.1) (Fin 133) = 2 \<and>
   contrast_channel (contrast_factor 1.1) (Fin 128) = 128"
  by (simp add: contrast_factor_value contrast_channel_Fin ToUint8Clamp_def Let_def)

lemma length_contrast_pixel: "length (contrast_pixel f i d) = length d"
  by (simp add: contrast_pixel_def upt_rec)

lemma contrast_pixel_nth:
  assumes "j < length d"
  shows "contrast_pixel f i d ! j =
     (if i \<le> j \<and> j < i + 3 then contrast_channel f (rd d j) else d ! j)"
proof -
  have "[0..<3] = [0, 1, 2]" by (simp add: upt_rec)
  then show ?thesis
    using assms by (auto simp: contrast_pixel_def rd_def nth_list_update)
qed

text \<open>The state of the buffer after the first \<open>n\<close> pixels.\<close>

lemma contrast_loop:
  "length (fold (\<lambda>k d'. contrast_pixel f (4 * k) d') [0..<n] d) = length d \<and>
   (\<forall>j<length d. fold (\<lambda>k d'. contrast_pixel f (4 * k) d') [0..<n] d ! j =
     (if j < 4 * n \<and> j mod 4 \<noteq> 3 then contrast_channel f (rd d j) else d ! j))"
proof (induction n)
  case 0
  then show ?case by simp
next
  case (Suc n)
  let ?d' = "fold (\<lambda>k d'. contrast_pixel f (4 * k) d') [0..<n] d"
  have len: "length ?d' = length d" using Suc by simp
  have nth: "?d' ! j = (if j < 4 * n \<and> j mod 4 \<noteq> 3
                         then contrast_channel f (rd d j) else d ! j)" if "j < length d" for j
    using Suc that by simp
  have step: "contrast_pixel f (4 * n) ?d' ! j =
     (if j < 4 * Suc n \<and> j mod 4 \<noteq> 3 then contrast_channel f (rd d j) else d ! j)"
    if j: "j < length d" for j
  proof (cases "4 * n \<le> j \<and> j < 4 * n + 3")
    case True
    then have m: "j mod 4 \<noteq> 3" by presburger
    from True have "rd ?d' j = rd d j"
      by (simp add: rd_def len nth [OF j])
    with True m j show ?thesis
      by (simp add: contrast_pixel_nth len)
  next
    case False
    then have "contrast_pixel f (4 * n) ?d' ! j = ?d' ! j"
      using j by (auto simp: contrast_pixel_nth len)
    moreover have "(j < 4 * Suc n \<and> j mod 4 \<noteq> 3) = (j < 4 * n \<and> j mod 4 \<noteq> 3)"
      using False by presburger
    ultimately show ?thesis by (simp add: nth [OF j])
  qed
  show ?case by (simp add: length_contrast_pixel len step)
qed

lemma applyContrastAdjustment_nth:
  assumes "i < length (id_data img)"
  shows "id_data (applyContrastAdjustment img c) ! i =
     (if i mod 4 \<noteq> 3
      then contrast_channel (contrast_factor c) (Fin (real (unat (id_data img ! i))))
      else id_data img ! i)"
proof -
  have "i < 4 * ((length (id_data img) + 3) div 4)" using assms by presburger
  with assms show ?thesis
    by (simp add: applyContrastAdjustment_def Let_def contrast_loop rd_def)
qed

text \<open>
  C9. The optimization applies the contrast adjustment with the parameter 1.1. Its
  factor is \<open>-5439/215\<close>, negative and within 0.01 of \<open>-25.3\<close>. The adjustment keeps the
  dimensions and every alpha byte (index 3 modulo 4); of the colour bytes it sends 255
  to 0 and 0 to 255, every value from 134 up to 0 and every value up to 122 to 255.
\<close>

theorem contrast_inverts:
  assumes "i < length (id_data img)"
  shows "contrast_factor 1.1 = Fin (- (5439 / 215)) \<and>
     \<bar>- (5439 / 215) - (- 25.3 :: real)\<bar> < 0.01 \<and>
     applyOptimizations img =
       (case applySharpeningFilter img of Inl e \<Rightarrow> Inl e
        | Inr s \<Rightarrow> Inr (applyContrastAdjustment s 1.1)) \<and>
     (let out = applyContrastAdjustment img 1.1; v = id_data img ! i
      in id_width out = id_width img \<and> id_height out = id_height img \<and>
         length (id_data out) = length (id_data img) \<and>
         (i mod 4 = 3 \<longrightarrow> id_data out ! i = v) \<and>
         (i mod 4 \<noteq> 3 \<longrightarrow>
            (v = 255 \<longrightarrow> id_data out ! i = 0) \<and>
            (v = 0 \<longrightarrow> id_data out ! i = 255) \<and>
            (134 \<le> unat v \<longrightarrow> id_data out ! i = 0) \<and>
            (unat v \<le> 122 \<longrightarrow> id_data out ! i = 255)))"
proof -
  let ?v = "id_data img ! i"
  let ?out = "applyContrastAdjustment img 1.1"
  have dims: "id_width ?out = id_width img" "id_height ?out = id_height img"
      "length (id_data ?out) = length (id_data img)"
    by (simp_all add: applyContrastAdjustment_def Let_def contrast_loop)
  have alpha: "id_data ?out ! i = ?v" if "i mod 4 = 3"
    using that by (simp add: applyContrastAdjustment_nth [OF assms])
  have colour: "id_data ?out ! i = contrast_channel (Fin (- (5439 / 215))) (Fin (real (unat ?v)))"
    if "i mod 4 \<noteq> 3"
    using that
    by (simp only: applyContrastAdjustment_nth [OF assms] contrast_factor_value simp_thms if_True)
  have high: "id_data ?out ! i = 0" if "i mod 4 \<noteq> 3" "134 \<le> unat ?v"
  proof -
    have "real 134 \<le> real (unat ?v)" using that(2) by (simp only: of_nat_le_iff)
    then have "134 \<le> real (unat ?v)" by (simp only: of_nat_numeral)
    then show ?thesis unfolding colour [OF that(1)] by (rule contrast_high)
  qed
  have low: "id_data ?out ! i = 255" if "i mod 4 \<noteq> 3" "unat ?v \<le> 122"
  proof -
    have "real (unat ?v) \<le> real 122" using that(2) by (simp only: of_nat_le_iff)
    then have "real (unat ?v) \<le> 122" by (simp only: of_nat_numeral)
    then show ?thesis unfolding colour [OF that(1)] by (rule contrast_low)
  qed
  have white: "id_data ?out ! i = 0" if "i mod 4 \<noteq> 3" "?v = 255"
    using high [OF that(1)] that(2) by simp
  have black: "id_data ?out ! i = 255" if "i mod 4 \<noteq> 3" "?v = 0"
    using low [OF that(1)] that(2) by simp
  have approx: "\<bar>- (5439 / 215) - (- 25.3 :: real)\<bar> < 0.01" by simp
  have opt: "applyOptimizations img =
       (case applySharpeningFilter img of Inl e \<Rightarrow> Inl e
        | Inr s \<Rightarrow> Inr (applyContrastAdjustment s 1.1))"
    by (simp add: applyOptimizations_def)
  show ?thesis
    unfolding Let_def
    using contrast_factor_value approx opt dims alpha white black high low by blast
qed

text \<open>
  On the pixels \<open>(255, 0, 134, 77)\<close> and \<open>(122, 123, 133, 9)\<close>: the first becomes
  \<open>(0, 255, 0, 77)\<close> and the second starts with 255.
\<close>

theorem contrast_inverts_witness:
  "(let out = applyContrastAdjustment example_pixels 1.1
    in 4 < length (id_data example_pixels) \<and>
       id_data out ! 0 = 0 \<and> id_data out ! 1 = 255 \<and> id_data out ! 2 = 0 \<and>
       id_data out ! 3 = 77 \<and> id_data out ! 4 = 255)"
  using contrast_inverts [of 0 example_pixels] contrast_inverts [of 1 example_pixels]
    contrast_inverts [of 2 example_pixels] contrast_inverts [of 3 example_pixels]
    contrast_inverts [of 4 example_pixels]
  by (simp add: example_pixels_def Let_def)

end
